theory Spec2Isabelle
  imports Main
begin

section \<open>Errors and references\<close>

text \<open>
  Every exception the two classes can raise is a JavaScript \<open>TypeError\<close> thrown by the
  runtime; none is caught anywhere in the source. \<open>NotFound name\<close> is the one raised by
  \<open>this.meshes[name].clone()\<close> in \<open>cloneMesh\<close> when no template is stored under
  \<open>name\<close>; \<open>TypeError\<close> stands for every other read or write through \<open>undefined\<close>.
\<close>

datatype error = NotFound string | TypeError

text \<open>
  A reference is an index into a store; allocation appends to the store, so a fresh
  reference is the length of the store before the allocation.
\<close>

type_synonym ref = nat

section \<open>The scene-graph objects of the rendering library\<close>

text \<open>
  A material carries the three channels the source writes: \<open>color\<close>, \<open>emissive\<close>
  (absent for a material class without an emissive channel, which is what
  \<open>material.emissive?.setHex\<close> guards against) and \<open>transparent\<close>.
\<close>

record mesh_material =
  color :: nat
  emissive :: "nat option"
  transparent :: bool

text \<open>
  The attributes of one node of an object tree. \<open>material\<close> is a reference into the
  material store (\<open>None\<close> for \<open>undefined\<close>). \<open>rotationY\<close> is the angle about the Y axis
  in degrees, as the source receives it (the library stores the angle times
  \<open>DEG2RAD\<close>). \<open>userData\<close> is the tile the mesh was built for, named by the tile's own
  coordinates. The uniform scale is a floating-point attribute that no operation
  modelled here reads; it is not represented.
\<close>

record props =
  material :: "ref option"
  visible :: bool
  position :: "int \<times> int \<times> int"
  rotationY :: int
  receiveShadow :: bool
  castShadow :: bool
  userData :: "(int \<times> int) option"

text \<open>
  An object with its sub-parts. The library keeps every object under at most one parent,
  so the sub-parts of a mesh are a tree; only the top-level objects (instances) are
  referenced from elsewhere and live in the object store.
\<close>

datatype object3d = Object3D (props: props) (children: "object3d list")

record heap =
  objs :: "object3d list"
  mats :: "mesh_material list"

text \<open>\<open>Object3D.traverse\<close> visits the object itself, then each child's subtree in order.\<close>

fun nodes :: "object3d \<Rightarrow> props list" where
  "nodes (Object3D p cs) = p # concat (map nodes cs)"

text \<open>The material references of an object tree, in traversal order.\<close>

definition mat_refs :: "object3d \<Rightarrow> ref list" where
  "mat_refs ob = concat (map (\<lambda>p. case material p of None \<Rightarrow> [] | Some r \<Rightarrow> [r]) (nodes ob))"

section \<open>The world model\<close>

text \<open>
  Modelled from the spec: the classes \<open>Tile\<close>, \<open>Zone\<close>, \<open>Road\<close> and \<open>City\<close> are imported
  by the source but are not part of it. The spec gives the interface:
  \<open>size\<close>, \<open>getTile(x,y) -> Tile|null\<close>, \<open>Tile.building -> Building|null\<close>,
  \<open>Building.{type, hideTerrain, isMeshOutOfDate}\<close> and the subtype fields
  \<open>zoneType/style/level/rotation/abandoned/developed\<close> and \<open>roadType/style/rotation\<close>.
  The source reads the kind of a building from its \<open>type\<close> field (\<open>btype\<close> here) and
  casts the same object to \<open>Zone\<close> or \<open>Road\<close>, so one record holds the fields of both.
  Each grid coordinate has a tile object of its own.
\<close>

record building =
  btype :: string
  pos_x :: int
  pos_y :: int
  style :: string
  level :: nat
  rotation :: int
  abandoned :: bool
  developed :: bool
  hideTerrain :: bool
  isMeshOutOfDate :: bool

record tile =
  tile_x :: int
  tile_y :: int
  building :: "building option"

record city =
  csize :: nat
  tiles :: "nat \<times> nat \<Rightarrow> tile option"

definition getTile :: "city \<Rightarrow> nat \<Rightarrow> nat \<Rightarrow> tile option" where
  "getTile c x y = tiles c (x, y)"

section \<open>AssetManager\<close>

text \<open>
  The catalogue \<open>models\<close> is imported from a module that is not part of the source; it
  is a parameter: the list of its entries in \<open>Object.entries\<close> order.
\<close>

record model_meta =
  filename :: string
  meta_rotation :: int
  meta_receiveShadow :: bool
  meta_castShadow :: bool

type_synonym catalog = "(string \<times> model_meta) list"

text \<open>
  \<open>meshes\<close> maps a name to its template. Nothing but \<open>meshes\<close> refers to a template, so
  the template is stored as the object tree itself; its materials live in the material
  store. \<open>onLoad_calls\<close> counts the invocations of \<open>this.onLoad()\<close>.
\<close>

record assets =
  meshes :: "string \<Rightarrow> object3d option"
  modelCount :: nat
  loadedModelCount :: nat
  onLoad_calls :: nat

text \<open>
  The constructor: \<open>modelCount = Object.keys(models).length\<close>, the counter at zero, one
  asynchronous \<open>loadModel\<close> request per entry. The requests complete later, each through
  one of the callbacks below.
\<close>

definition AssetManager :: "catalog \<Rightarrow> assets" where
  "AssetManager models =
     \<lparr>meshes = (\<lambda>name. None), modelCount = length models, loadedModelCount = 0,
      onLoad_calls = 0\<rparr>"

text \<open>
  The first \<open>traverse\<close> of the success callback: every node gets a new
  \<open>MeshLambertMaterial\<close> (white, no emission, opaque) of its own.
\<close>

definition newLambert :: mesh_material where
  "newLambert = \<lparr>color = 0xffffff, emissive = Some 0x000000, transparent = False\<rparr>"

fun assignMaterials :: "object3d \<Rightarrow> mesh_material list \<Rightarrow> object3d \<times> mesh_material list"
  and assignMaterialsList ::
    "object3d list \<Rightarrow> mesh_material list \<Rightarrow> object3d list \<times> mesh_material list" where
  "assignMaterials (Object3D p cs) ms =
     (case assignMaterialsList cs (ms @ [newLambert]) of
        (cs', ms') \<Rightarrow> (Object3D (p\<lparr>material := Some (length ms)\<rparr>) cs', ms'))"
| "assignMaterialsList [] ms = ([], ms)"
| "assignMaterialsList (c # cs) ms =
     (case assignMaterials c ms of
        (c', ms1) \<Rightarrow> (case assignMaterialsList cs ms1 of (cs', ms2) \<Rightarrow> (c' # cs', ms2)))"

text \<open>
  The events a pending load delivers. \<open>Loaded\<close> carries the node
  \<open>glb.scene.children[0].children[0]\<close> of the loader's result; the callback closes
  over the entry's name and descriptor.
\<close>

datatype load_event =
    Loaded string model_meta object3d
  | Progress string
  | Failed string

definition onLoaded ::
  "string \<Rightarrow> model_meta \<Rightarrow> object3d \<Rightarrow> assets \<times> heap \<Rightarrow> assets \<times> heap" where
  "onLoaded name meta glb_mesh st =
     (case st of (am, h) \<Rightarrow>
        (case assignMaterials glb_mesh (mats h) of (mesh1, ms) \<Rightarrow>
           (let mesh = Object3D ((props mesh1)\<lparr>position := (0, 0, 0),
                           rotationY := meta_rotation meta,
                           receiveShadow := meta_receiveShadow meta,
                           castShadow := meta_castShadow meta\<rparr>) (children mesh1);
                n = loadedModelCount am + 1
            in (am\<lparr>meshes := (meshes am)(name := Some mesh),
                    loadedModelCount := n,
                    onLoad_calls := (if n = modelCount am then onLoad_calls am + 1
                                     else onLoad_calls am)\<rparr>,
                h\<lparr>mats := ms\<rparr>))))"

text \<open>The progress callback has an empty body; the error callback only logs.\<close>

definition deliver :: "load_event \<Rightarrow> assets \<times> heap \<Rightarrow> assets \<times> heap" where
  "deliver ev st =
     (case ev of
        Loaded name meta glb_mesh \<Rightarrow> onLoaded name meta glb_mesh st
      | Progress name \<Rightarrow> st
      | Failed name \<Rightarrow> st)"

fun deliver_all :: "load_event list \<Rightarrow> assets \<times> heap \<Rightarrow> assets \<times> heap" where
  "deliver_all [] st = st"
| "deliver_all (ev # evs) st = deliver_all evs (deliver ev st)"

text \<open>Which events are successful completions, and which load an event belongs to.\<close>

fun is_success :: "load_event \<Rightarrow> bool" where
  "is_success (Loaded name meta glb_mesh) = True"
| "is_success (Progress name) = False"
| "is_success (Failed name) = False"

fun is_failure :: "load_event \<Rightarrow> bool" where
  "is_failure (Loaded name meta glb_mesh) = False"
| "is_failure (Progress name) = False"
| "is_failure (Failed name) = True"

fun event_name :: "load_event \<Rightarrow> string" where
  "event_name (Loaded name meta glb_mesh) = name"
| "event_name (Progress name) = name"
| "event_name (Failed name) = name"

definition successes :: "load_event list \<Rightarrow> nat" where
  "successes evs = length (filter is_success evs)"

text \<open>The names of the loads that have completed (with either outcome), in order.\<close>

definition completed :: "load_event list \<Rightarrow> string list" where
  "completed evs = map event_name (filter (\<lambda>ev. is_success ev \<or> is_failure ev) evs)"

subsection \<open>cloneMesh\<close>

text \<open>
  \<open>Mesh.clone()\<close> copies the object tree and keeps the material references; the
  \<open>traverse\<close> that follows replaces the material of every node that has one by a clone
  of it (a new cell in the material store) with \<open>transparent\<close> set from the argument.
\<close>

fun cloneMaterials ::
    "bool \<Rightarrow> object3d \<Rightarrow> mesh_material list \<Rightarrow> object3d \<times> mesh_material list"
  and cloneMaterialsList ::
    "bool \<Rightarrow> object3d list \<Rightarrow> mesh_material list \<Rightarrow> object3d list \<times> mesh_material list"
  where
  "cloneMaterials tr (Object3D p cs) ms =
     (case material p of
        None \<Rightarrow>
          (case cloneMaterialsList tr cs ms of (cs', ms') \<Rightarrow> (Object3D p cs', ms'))
      | Some r \<Rightarrow>
          (case cloneMaterialsList tr cs (ms @ [(ms ! r)\<lparr>transparent := tr\<rparr>]) of
             (cs', ms') \<Rightarrow> (Object3D (p\<lparr>material := Some (length ms)\<rparr>) cs', ms')))"
| "cloneMaterialsList tr [] ms = ([], ms)"
| "cloneMaterialsList tr (c # cs) ms =
     (case cloneMaterials tr c ms of
        (c', ms1) \<Rightarrow>
          (case cloneMaterialsList tr cs ms1 of (cs', ms2) \<Rightarrow> (c' # cs', ms2)))"

definition cloneMesh :: "assets \<Rightarrow> string \<Rightarrow> bool \<Rightarrow> heap \<Rightarrow> error + (ref \<times> heap)" where
  "cloneMesh am name tr h =
     (case meshes am name of
        None \<Rightarrow> Inl (NotFound name)
      | Some template \<Rightarrow>
          (case cloneMaterials tr template (mats h) of
             (mesh, ms) \<Rightarrow> Inr (length (objs h), \<lparr>objs = objs h @ [mesh], mats = ms\<rparr>)))"

subsection \<open>The mesh factory\<close>

text \<open>
  \<open>createRandomVehicleMesh\<close> draws from \<open>Math.random\<close> and is not modelled.
\<close>

text \<open>Writes to the attributes of the top-level object behind a reference.\<close>

definition update_props :: "ref \<Rightarrow> (props \<Rightarrow> props) \<Rightarrow> heap \<Rightarrow> heap" where
  "update_props r f h =
     h\<lparr>objs := (objs h)[r := Object3D (f (props (objs h ! r))) (children (objs h ! r))]\<rparr>"

definition createGroundMesh :: "assets \<Rightarrow> tile \<Rightarrow> heap \<Rightarrow> error + (ref \<times> heap)" where
  "createGroundMesh am t h =
     (case cloneMesh am ''grass'' False h of
        Inl e \<Rightarrow> Inl e
      | Inr (mesh, h1) \<Rightarrow>
          Inr (mesh, update_props mesh
                 (\<lambda>p. p\<lparr>userData := Some (tile_x t, tile_y t),
                         position := (tile_x t, 0, tile_y t)\<rparr>) h1))"

text \<open>
  A number in a template literal: its decimal digits. This is what the source prints
  for an integer below \<open>1e21\<close>; a larger number prints in exponent form, which is not
  modelled.
\<close>

fun digit_char :: "nat \<Rightarrow> char" where
  "digit_char n = char_of (48 + n)"

function string_of_nat :: "nat \<Rightarrow> string" where
  "string_of_nat n =
     (if n < 10 then [digit_char n] else string_of_nat (n div 10) @ [digit_char (n mod 10)])"
  by pat_completeness auto
termination
  by (relation "measure id") auto

declare string_of_nat.simps [simp del]

text \<open>
  \<open>createZoneMesh\<close>. The branch on \<open>zone.developed\<close> has an empty body in the source (its
  only content is a comment), so both branches leave \<open>modelName\<close> as it is.
\<close>

definition zoneModelName :: "building \<Rightarrow> string" where
  "zoneModelName zone = btype zone @ ''-'' @ style zone @ string_of_nat (level zone)"

definition createZoneMesh :: "assets \<Rightarrow> tile \<Rightarrow> heap \<Rightarrow> error + (ref \<times> heap)" where
  "createZoneMesh am t h =
     (case building t of
        None \<Rightarrow> Inl TypeError
      | Some zone \<Rightarrow>
          (let modelName = (if developed zone then zoneModelName zone else zoneModelName zone)
           in (case cloneMesh am modelName False h of
                 Inl e \<Rightarrow> Inl e
               | Inr (mesh, h1) \<Rightarrow>
                   (let h2 = update_props mesh
                               (\<lambda>p. p\<lparr>userData := Some (tile_x t, tile_y t),
                                       rotationY := rotation zone,
                                       position := (pos_x zone, 0, pos_y zone)\<rparr>) h1
                    in if abandoned zone
                       then (case material (props (objs h2 ! mesh)) of
                               None \<Rightarrow> Inl TypeError
                             | Some r \<Rightarrow>
                                 Inr (mesh,
                                      h2\<lparr>mats := (mats h2)[r := (mats h2 ! r)\<lparr>color := 0x707070\<rparr>]\<rparr>))
                       else Inr (mesh, h2)))))"

definition roadModelName :: "building \<Rightarrow> string" where
  "roadModelName road = btype road @ ''-'' @ style road"

definition createRoadMesh :: "assets \<Rightarrow> tile \<Rightarrow> heap \<Rightarrow> error + (ref \<times> heap)" where
  "createRoadMesh am t h =
     (case building t of
        None \<Rightarrow> Inl TypeError
      | Some road \<Rightarrow>
          (case cloneMesh am (roadModelName road) False h of
             Inl e \<Rightarrow> Inl e
           | Inr (mesh, h1) \<Rightarrow>
               Inr (mesh, update_props mesh
                      (\<lambda>p. p\<lparr>userData := Some (tile_x t, tile_y t),
                              rotationY := rotation road,
                              position := (pos_x road, 0, pos_y road)\<rparr>) h1)))"

text \<open>
  \<open>createBuildingMesh\<close>: \<open>null\<close> for a tile without a building and for an unrecognised
  type (after a warning).
\<close>

definition createBuildingMesh :: "assets \<Rightarrow> tile \<Rightarrow> heap \<Rightarrow> error + (ref option \<times> heap)" where
  "createBuildingMesh am t h =
     (case building t of
        None \<Rightarrow> Inr (None, h)
      | Some b \<Rightarrow>
          if btype b = ''residential'' \<or> btype b = ''commercial'' \<or> btype b = ''industrial''
          then (case createZoneMesh am t h of
                  Inl e \<Rightarrow> Inl e
                | Inr (mesh, h1) \<Rightarrow> Inr (Some mesh, h1))
          else if btype b = ''road''
          then (case createRoadMesh am t h of
                  Inl e \<Rightarrow> Inl e
                | Inr (mesh, h1) \<Rightarrow> Inr (Some mesh, h1))
          else Inr (None, h))"

section \<open>SceneManager\<close>

text \<open>
  The synchronisation pass \<open>applyChanges\<close> and the two highlight operations are
  modelled. The constructor, \<open>#initialize\<close>, the lights and the grid overlay, the
  render loop, resizing and ray casting (\<open>getSelectedObject\<close>) are not: they only
  set up or read the state the modelled operations work on.
\<close>

text \<open>
  Modelled from the spec: the class \<open>VehicleGraph\<close> is imported by the source but is
  not part of it. The spec gives its interface, \<open>updateTile(x, y, road|null)\<close>; a
  call of it is recorded and has no other effect here.

  \<open>call\<close> lists the calls the scene manager makes on its two collaborators, in order:
  \<open>remove\<close> and \<open>add\<close> on the root group of the rendering library, and
  \<open>updateTile\<close> on the vehicle graph.
\<close>

datatype call = RootRemove ref | RootAdd "ref option" | UpdateTile nat nat "building option"

text \<open>
  \<open>root_children\<close> is \<open>this.root.children\<close>; \<open>buildings\<close> and \<open>terrain\<close> are the two
  arrays of arrays, indexed \<open>[x][y]\<close>; a building slot holds a mesh, \<open>null\<close> or
  \<open>undefined\<close> (both \<open>None\<close>).
\<close>

record scene =
  root_children :: "ref list"
  buildings :: "ref option list list"
  terrain :: "ref list list"
  activeObject :: "ref option"
  hoverObject :: "ref option"
  calls :: "call list"

text \<open>
  \<open>Object3D.remove\<close> takes the first occurrence of the object out of the children, if
  there is one. \<open>Object3D.add\<close> detaches the object from its parent and appends it;
  \<open>add(null)\<close> logs an error and changes nothing.
\<close>

definition root_remove :: "ref \<Rightarrow> scene \<Rightarrow> scene" where
  "root_remove m sc =
     sc\<lparr>root_children := remove1 m (root_children sc), calls := calls sc @ [RootRemove m]\<rparr>"

definition root_add :: "ref option \<Rightarrow> scene \<Rightarrow> scene" where
  "root_add mesh sc =
     (case mesh of
        None \<Rightarrow> sc\<lparr>calls := calls sc @ [RootAdd None]\<rparr>
      | Some m \<Rightarrow>
          sc\<lparr>root_children := remove1 m (root_children sc) @ [m],
             calls := calls sc @ [RootAdd (Some m)]\<rparr>)"

definition updateTile :: "nat \<Rightarrow> nat \<Rightarrow> building option \<Rightarrow> scene \<Rightarrow> scene" where
  "updateTile x y road sc = sc\<lparr>calls := calls sc @ [UpdateTile x y road]\<rparr>"

text \<open>
  Array reads. \<open>this.buildings[x][y]\<close> throws when \<open>this.buildings[x]\<close> is \<open>undefined\<close>
  and is \<open>undefined\<close> when only \<open>y\<close> is out of range. \<open>this.terrain[x][y].visible = ...\<close>
  throws when either index is out of range.
\<close>

definition buildings_at :: "scene \<Rightarrow> nat \<Rightarrow> nat \<Rightarrow> error + ref option" where
  "buildings_at sc x y =
     (if x < length (buildings sc)
      then Inr (if y < length (buildings sc ! x) then buildings sc ! x ! y else None)
      else Inl TypeError)"

definition terrain_at :: "scene \<Rightarrow> nat \<Rightarrow> nat \<Rightarrow> error + ref" where
  "terrain_at sc x y =
     (if x < length (terrain sc) \<and> y < length (terrain sc ! x)
      then Inr (terrain sc ! x ! y)
      else Inl TypeError)"

text \<open>
  \<open>this.buildings[x][y] = v\<close>, reached only after the slot was read as a mesh, so both
  indices are in range.
\<close>

definition set_building :: "nat \<Rightarrow> nat \<Rightarrow> ref option \<Rightarrow> scene \<Rightarrow> scene" where
  "set_building x y v sc = sc\<lparr>buildings := (buildings sc)[x := (buildings sc ! x)[y := v]]\<rparr>"

definition set_visible :: "ref \<Rightarrow> bool \<Rightarrow> heap \<Rightarrow> heap" where
  "set_visible r v h = update_props r (\<lambda>p. p\<lparr>visible := v\<rparr>) h"

text \<open>\<open>!tile?.building?.hideTerrain ?? true\<close>: the negation is never nullish.\<close>

definition terrain_visible :: "tile option \<Rightarrow> bool" where
  "terrain_visible t =
     (case t of
        None \<Rightarrow> True
      | Some tile0 \<Rightarrow> (case building tile0 of None \<Rightarrow> True | Some b \<Rightarrow> \<not> hideTerrain b))"

definition tile_building :: "tile option \<Rightarrow> building option" where
  "tile_building t = (case t of None \<Rightarrow> None | Some tile0 \<Rightarrow> building tile0)"

type_synonym world = "city \<times> scene \<times> heap"

text \<open>
  The body of the two nested loops of \<open>applyChanges\<close> at one coordinate. The result is
  the exception raised, if any, and the state reached (at the throw, when there is one).
  A mesh factory call that throws leaves only unreachable objects behind, so the heap
  is kept as it was before the call.
\<close>

definition applyTile :: "assets \<Rightarrow> nat \<Rightarrow> nat \<Rightarrow> world \<Rightarrow> error option \<times> world" where
  "applyTile am x y w =
     (case w of (c, sc, h) \<Rightarrow>
        (case buildings_at sc x y of
           Inl e \<Rightarrow> (Some e, w)
         | Inr existingBuildingMesh \<Rightarrow>
             (case terrain_at sc x y of
                Inl e \<Rightarrow> (Some e, w)
              | Inr t \<Rightarrow>
                  (let tile0 = getTile c x y;
                       h1 = set_visible t (terrain_visible tile0) h;
                       sc1 = (case (tile_building tile0, existingBuildingMesh) of
                                (None, Some m) \<Rightarrow>
                                  updateTile x y None (set_building x y None (root_remove m sc))
                              | _ \<Rightarrow> sc)
                   in (case (tile0, tile_building tile0, existingBuildingMesh) of
                         (Some ti, Some b, Some m) \<Rightarrow>
                           if isMeshOutOfDate b
                           then (let sc2 = root_remove m sc1
                                 in (case createBuildingMesh am ti h1 of
                                       Inl e \<Rightarrow> (Some e, (c, sc2, h1))
                                     | Inr (mesh, h2) \<Rightarrow>
                                         (let sc3 = root_add mesh (set_building x y mesh sc2);
                                              b' = b\<lparr>isMeshOutOfDate := False\<rparr>;
                                              c' = c\<lparr>tiles := (tiles c)((x, y) :=
                                                        Some (ti\<lparr>building := Some b'\<rparr>))\<rparr>;
                                              sc4 = (if btype b = ''road''
                                                     then updateTile x y (Some b') sc3
                                                     else sc3)
                                          in (None, (c', sc4, h2)))))
                           else (None, (c, sc1, h1))
                       | _ \<Rightarrow> (None, (c, sc1, h1)))))))"

text \<open>The two loops visit the coordinates with \<open>x\<close> outermost; an exception ends them.\<close>

fun applyTiles :: "assets \<Rightarrow> (nat \<times> nat) list \<Rightarrow> world \<Rightarrow> error option \<times> world" where
  "applyTiles am [] w = (None, w)"
| "applyTiles am ((x, y) # cs) w =
     (case applyTile am x y w of
        (Some e, w') \<Rightarrow> (Some e, w')
      | (None, w') \<Rightarrow> applyTiles am cs w')"

definition grid :: "nat \<Rightarrow> (nat \<times> nat) list" where
  "grid n = List.product [0..<n] [0..<n]"

definition applyChanges :: "assets \<Rightarrow> world \<Rightarrow> error option \<times> world" where
  "applyChanges am w = applyTiles am (grid (csize (fst w))) w"

subsection \<open>Highlighting\<close>

text \<open>
  \<open>#setMeshEmission\<close>: nothing for \<open>null\<close>; a \<open>TypeError\<close> when the mesh has no material;
  nothing when the material has no emissive channel.
\<close>

definition setMeshEmission :: "ref option \<Rightarrow> nat \<Rightarrow> heap \<Rightarrow> error + heap" where
  "setMeshEmission mesh c h =
     (case mesh of
        None \<Rightarrow> Inr h
      | Some m \<Rightarrow>
          (case material (props (objs h ! m)) of
             None \<Rightarrow> Inl TypeError
           | Some r \<Rightarrow>
               (case emissive (mats h ! r) of
                  None \<Rightarrow> Inr h
                | Some old \<Rightarrow> Inr (h\<lparr>mats := (mats h)[r := (mats h ! r)\<lparr>emissive := Some c\<rparr>]\<rparr>))))"

definition setHighlightedMesh ::
  "ref option \<Rightarrow> scene \<times> heap \<Rightarrow> error option \<times> scene \<times> heap" where
  "setHighlightedMesh mesh st =
     (case st of (sc, h) \<Rightarrow>
        (case (if hoverObject sc \<noteq> None \<and> hoverObject sc \<noteq> activeObject sc
               then setMeshEmission (hoverObject sc) 0x000000 h
               else Inr h) of
           Inl e \<Rightarrow> (Some e, (sc, h))
         | Inr h1 \<Rightarrow>
             (let sc1 = sc\<lparr>hoverObject := mesh\<rparr>
              in if hoverObject sc1 \<noteq> None
                 then (case setMeshEmission (hoverObject sc1) 0x555555 h1 of
                         Inl e \<Rightarrow> (Some e, (sc1, h1))
                       | Inr h2 \<Rightarrow> (None, (sc1, h2)))
                 else (None, (sc1, h1)))))"

definition setActiveObject ::
  "ref option \<Rightarrow> scene \<times> heap \<Rightarrow> error option \<times> scene \<times> heap" where
  "setActiveObject object st =
     (case st of (sc, h) \<Rightarrow>
        (case setMeshEmission (activeObject sc) 0x000000 h of
           Inl e \<Rightarrow> (Some e, (sc, h))
         | Inr h1 \<Rightarrow>
             (let sc1 = sc\<lparr>activeObject := object\<rparr>
              in (case setMeshEmission (activeObject sc1) 0xaaaa55 h1 of
                    Inl e \<Rightarrow> (Some e, (sc1, h1))
                  | Inr h2 \<Rightarrow> (None, (sc1, h2))))))"

text \<open>The emissive colour of the material of a top-level object.\<close>

definition emission_of :: "heap \<Rightarrow> ref \<Rightarrow> nat option" where
  "emission_of h m =
     (case material (props (objs h ! m)) of
        None \<Rightarrow> None
      | Some r \<Rightarrow> emissive (mats h ! r))"

section \<open>Example inputs\<close>

text \<open>A catalogue of two resources and the node a load of either delivers.\<close>

definition demo_meta :: model_meta where
  "demo_meta =
     \<lparr>filename = ''model.glb'', meta_rotation = 90, meta_receiveShadow = True,
      meta_castShadow = False\<rparr>"

definition demo_models :: catalog where
  "demo_models = [(''grass'', demo_meta), (''road-straight'', demo_meta)]"

definition demo_props :: props where
  "demo_props =
     \<lparr>material = None, visible = True, position = (0, 0, 0), rotationY = 0,
      receiveShadow = True, castShadow = True, userData = None\<rparr>"

definition demo_glb :: object3d where
  "demo_glb = Object3D demo_props [Object3D demo_props []]"

definition empty_heap :: heap where
  "empty_heap = \<lparr>objs = [], mats = []\<rparr>"

text \<open>
  A loaded asset manager with three templates (the house has a sub-part), and a 2 x 2
  world: a road flagged out of date at (0,0) with its mesh cached, and a zone building
  flagged out of date at (1,1) with no mesh cached.
\<close>

definition demo_grass :: object3d where
  "demo_grass = Object3D (demo_props\<lparr>material := Some 0\<rparr>) []"

definition demo_road :: object3d where
  "demo_road = Object3D (demo_props\<lparr>material := Some 1\<rparr>) []"

definition demo_house :: object3d where
  "demo_house =
     Object3D (demo_props\<lparr>material := Some 2\<rparr>) [Object3D (demo_props\<lparr>material := Some 3\<rparr>) []]"

definition demo_assets :: assets where
  "demo_assets =
     \<lparr>meshes = (\<lambda>name. if name = ''grass'' then Some demo_grass
                       else if name = ''road-straight'' then Some demo_road
                       else if name = ''residential-A1'' then Some demo_house
                       else None),
      modelCount = 3, loadedModelCount = 3, onLoad_calls = 1\<rparr>"

definition demo_road_b :: building where
  "demo_road_b =
     \<lparr>btype = ''road'', pos_x = 0, pos_y = 0, style = ''straight'', level = 0,
      rotation = 90, abandoned = False, developed = False, hideTerrain = True,
      isMeshOutOfDate = True\<rparr>"

definition demo_zone_b :: building where
  "demo_zone_b =
     \<lparr>btype = ''residential'', pos_x = 1, pos_y = 1, style = ''A'', level = 1,
      rotation = 0, abandoned = True, developed = True, hideTerrain = False,
      isMeshOutOfDate = True\<rparr>"

definition demo_city :: city where
  "demo_city =
     \<lparr>csize = 2,
      tiles = (\<lambda>(x, y).
         if x < 2 \<and> y < 2
         then Some \<lparr>tile_x = int x, tile_y = int y,
                    building = (if (x, y) = (0, 0) then Some demo_road_b
                                else if (x, y) = (1, 1) then Some demo_zone_b
                                else None)\<rparr>
         else None)\<rparr>"

definition demo_mesh :: "ref \<Rightarrow> int \<Rightarrow> int \<Rightarrow> object3d" where
  "demo_mesh r x y =
     Object3D (demo_props\<lparr>material := Some r, userData := Some (x, y), position := (x, 0, y)\<rparr>) []"

definition demo_heap :: heap where
  "demo_heap =
     \<lparr>objs = [demo_mesh 4 0 0, demo_mesh 5 0 1, demo_mesh 6 1 0, demo_mesh 7 1 1,
              demo_mesh 8 0 0],
      mats = replicate 9 newLambert\<rparr>"

definition demo_scene :: scene where
  "demo_scene =
     \<lparr>root_children = [0, 1, 2, 3, 4],
      buildings = [[Some 4, None], [None, None]],
      terrain = [[0, 1], [2, 3]],
      activeObject = None, hoverObject = None, calls = []\<rparr>"

text \<open>
  The two tiles of the example world that hold a building, the same world after the
  road at (0,0) has been removed from the world model, and the asset manager without
  the road template.
\<close>

definition demo_tile11 :: tile where
  "demo_tile11 = \<lparr>tile_x = 1, tile_y = 1, building = Some demo_zone_b\<rparr>"

definition demo_tile00 :: tile where
  "demo_tile00 = \<lparr>tile_x = 0, tile_y = 0, building = Some demo_road_b\<rparr>"

definition demo_city_cleared :: city where
  "demo_city_cleared =
     demo_city\<lparr>tiles := (tiles demo_city)((0, 0) := Some \<lparr>tile_x = 0, tile_y = 0, building = None\<rparr>)\<rparr>"

definition demo_assets_no_road :: assets where
  "demo_assets_no_road = demo_assets\<lparr>meshes := (meshes demo_assets)(''road-straight'' := None)\<rparr>"

text \<open>
  A building of a type that \<open>createBuildingMesh\<close> does not recognise, a zone building
  for (0,0), and the example world with a given building, flagged out of date, at
  (0,0), where a mesh is cached.
\<close>

definition demo_plant_b :: building where
  "demo_plant_b =
     \<lparr>btype = ''power-plant'', pos_x = 0, pos_y = 0, style = '''', level = 0,
      rotation = 0, abandoned = False, developed = False, hideTerrain = True,
      isMeshOutOfDate = True\<rparr>"

definition demo_house_b :: building where
  "demo_house_b = demo_zone_b\<lparr>pos_x := 0, pos_y := 0\<rparr>"

definition demo_city_with :: "building \<Rightarrow> city" where
  "demo_city_with b =
     demo_city\<lparr>tiles := (tiles demo_city)((0, 0) :=
                  Some \<lparr>tile_x = 0, tile_y = 0, building = Some b\<rparr>)\<rparr>"

section \<open>Auxiliary notions\<close>

text \<open>
  A coordinate needs synchronising when one of the two conditions of the loop body
  holds there: a mesh is cached and the tile has no building, or a mesh is cached and
  the building is flagged out of date.
\<close>

definition needs_sync :: "city \<Rightarrow> scene \<Rightarrow> nat \<Rightarrow> nat \<Rightarrow> bool" where
  "needs_sync c sc x y =
     (case buildings_at sc x y of
        Inr (Some m) \<Rightarrow>
          (case tile_building (getTile c x y) of None \<Rightarrow> True | Some b \<Rightarrow> isMeshOutOfDate b)
      | _ \<Rightarrow> False)"

text \<open>The visibility writes of a pass over the given coordinates, in order.\<close>

fun show_terrain :: "city \<Rightarrow> scene \<Rightarrow> (nat \<times> nat) list \<Rightarrow> heap \<Rightarrow> heap" where
  "show_terrain c sc [] h = h"
| "show_terrain c sc ((x, y) # cs) h =
     show_terrain c sc cs
       (case terrain_at sc x y of
          Inr t \<Rightarrow> set_visible t (terrain_visible (getTile c x y)) h
        | Inl e \<Rightarrow> h)"

text \<open>Every terrain slot refers to an object of the store.\<close>

definition terrain_allocated :: "scene \<Rightarrow> heap \<Rightarrow> bool" where
  "terrain_allocated sc h = list_all (list_all (\<lambda>t. t < length (objs h))) (terrain sc)"


text \<open>
  The terrain mesh of a coordinate already has the visibility the pass would write.
\<close>

definition terrain_shown :: "city \<Rightarrow> scene \<Rightarrow> heap \<Rightarrow> nat \<Rightarrow> nat \<Rightarrow> bool" where
  "terrain_shown c sc h x y =
     (case terrain_at sc x y of
        Inr t \<Rightarrow> visible (props (objs h ! t)) = terrain_visible (getTile c x y)
      | Inl e \<Rightarrow> True)"

text \<open>
  An object tree with its material references blanked: equal blanks mean the same
  tree, the same attributes and a material at the same nodes.
\<close>

fun blank :: "object3d \<Rightarrow> object3d" where
  "blank (Object3D p cs) =
     Object3D (p\<lparr>material := map_option (\<lambda>r. 0) (material p)\<rparr>) (map blank cs)"

text \<open>
  The template name \<open>createBuildingMesh\<close> asks \<open>cloneMesh\<close> for, if any: the zone name
  for the three zone types, the road name for a road.
\<close>

definition requestedModel :: "building \<Rightarrow> string option" where
  "requestedModel b =
     (if btype b = ''residential'' \<or> btype b = ''commercial'' \<or> btype b = ''industrial''
      then Some (zoneModelName b)
      else if btype b = ''road'' then Some (roadModelName b)
      else None)"

text \<open>
  The template a zone or a road asks for can be used: one is stored under the requested
  name and, for an abandoned zone, its root carries a material (\<open>createZoneMesh\<close>
  writes the tint to \<open>mesh.material.color\<close>).
\<close>

definition template_ready :: "assets \<Rightarrow> building \<Rightarrow> bool" where
  "template_ready am b =
     (case requestedModel b of
        None \<Rightarrow> False
      | Some name \<Rightarrow>
          (case meshes am name of
             None \<Rightarrow> False
           | Some tmpl \<Rightarrow>
               btype b = ''road'' \<or> \<not> abandoned b \<or> material (props tmpl) \<noteq> None))"

text \<open>
  The two arrays have a row for every \<open>x\<close> of the grid, and the terrain rows an entry
  for every \<open>y\<close>, as \<open>#initialize\<close> builds them.
\<close>

definition arrays_cover :: "city \<Rightarrow> scene \<Rightarrow> bool" where
  "arrays_cover c sc =
     (\<forall>(x, y) \<in> set (grid (csize c)).
        x < length (buildings sc) \<and> x < length (terrain sc) \<and> y < length (terrain sc ! x))"

text \<open>Every material reference of every stored template is a cell of the store.\<close>

definition templates_allocated :: "assets \<Rightarrow> heap \<Rightarrow> bool" where
  "templates_allocated am h =
     (\<forall>name tmpl. meshes am name = Some tmpl \<longrightarrow> (\<forall>r \<in> set (mat_refs tmpl). r < length (mats h)))"

section \<open>The ready signal\<close>

lemma deliver_modelCount:
  "modelCount (fst (deliver ev st)) = modelCount (fst st)"
  by (cases st; cases ev) (simp_all add: deliver_def onLoaded_def Let_def split: prod.splits)

lemma deliver_all_modelCount:
  "modelCount (fst (deliver_all evs st)) = modelCount (fst st)"
  by (induction evs arbitrary: st) (simp_all add: deliver_modelCount)

lemma deliver_count:
  "loadedModelCount (fst (deliver ev st)) =
     loadedModelCount (fst st) + (if is_success ev then 1 else 0)"
  by (cases st; cases ev) (simp_all add: deliver_def onLoaded_def Let_def split: prod.splits)

lemma deliver_calls:
  "onLoad_calls (fst (deliver ev st)) =
     onLoad_calls (fst st) +
       (if is_success ev \<and> loadedModelCount (fst st) + 1 = modelCount (fst st) then 1 else 0)"
  by (cases st; cases ev) (simp_all add: deliver_def onLoaded_def Let_def split: prod.splits)

lemma deliver_all_count:
  "loadedModelCount (fst (deliver_all evs st)) = loadedModelCount (fst st) + successes evs"
  by (induction evs arbitrary: st) (simp_all add: successes_def deliver_count)

text \<open>
  The counter goes up by one per success and the callback runs when the counter equals
  \<open>modelCount\<close>, which it does at most once on the way up.
\<close>

lemma deliver_all_calls:
  "onLoad_calls (fst (deliver_all evs st)) =
     onLoad_calls (fst st) +
       (if loadedModelCount (fst st) < modelCount (fst st) \<and>
           modelCount (fst st) \<le> loadedModelCount (fst st) + successes evs
        then 1 else 0)"
proof (induction evs arbitrary: st)
  case Nil
  then show ?case by (simp add: successes_def)
next
  case (Cons ev evs)
  show ?case
    by (simp add: Cons.IH deliver_calls deliver_count deliver_modelCount)
       (auto simp: successes_def)
qed

lemma deliver_all_append:
  "deliver_all (evs @ evs') st = deliver_all evs' (deliver_all evs st)"
  by (induction evs arbitrary: st) simp_all

lemma successes_le_completed: "successes evs \<le> length (completed evs)"
  by (induction evs) (auto simp: successes_def completed_def)

lemma failure_successes_less:
  "\<exists>ev \<in> set evs. is_failure ev \<Longrightarrow> successes evs < length (completed evs)"
proof (induction evs)
  case Nil
  then show ?case by simp
next
  case (Cons e es)
  show ?case
  proof (cases "is_failure e")
    case True
    then have "\<not> is_success e" by (cases e) auto
    with True successes_le_completed[of es] show ?thesis
      by (simp add: successes_def completed_def)
  next
    case False
    with Cons have "successes es < length (completed es)" by auto
    then show ?thesis by (auto simp: successes_def completed_def)
  qed
qed

text \<open>
  When every load completes at most once, one failure leaves fewer successes than
  catalogue entries.
\<close>

lemma failure_bounds_successes:
  assumes "distinct (completed evs)" and "set (completed evs) \<subseteq> fst ` set models"
    and "\<exists>ev \<in> set evs. is_failure ev"
  shows "successes evs < length models"
proof -
  have "length (completed evs) = card (set (completed evs))"
    using assms(1) by (simp add: distinct_card)
  also have "\<dots> \<le> card (fst ` set models)"
    using assms(2) by (simp add: card_mono)
  also have "\<dots> \<le> length models"
    by (metis card_image_le card_length le_trans List.finite_set)
  finally have "length (completed evs) \<le> length models" .
  with failure_successes_less[OF assms(3)] show ?thesis by simp
qed

text \<open>
  C2, as stated, at the empty catalogue: all of its zero loads have completed, and the
  ready callback has not run (nor will it: no later event can bring the counter to
  zero).
\<close>

theorem C2_empty_catalog_never_ready:
  "successes [] = length ([] :: catalog) \<and>
   onLoad_calls (fst (deliver_all [] (AssetManager [], empty_heap))) = 0 \<and>
   onLoad_calls (fst (deliver_all [Loaded ''grass'' demo_meta demo_glb]
                        (AssetManager [], empty_heap))) = 0"
  by (simp add: successes_def AssetManager_def deliver_calls)

text \<open>
  C2 (amended). For a catalogue of \<open>N\<close> resources and any sequence of load events: the
  completion counter is the number of successful completions (a failure or a progress
  event leaves it as it is); the ready callback has run once if \<open>N \<ge> 1\<close> and at least
  \<open>N\<close> loads have succeeded, and not at all otherwise, so for \<open>N \<ge> 1\<close> it runs exactly
  once, at the event that is the \<open>N\<close>-th success, never earlier and never again; and
  when every load of the catalogue completes at most once, a failure among the events
  means the callback has not run. For the empty catalogue it never runs.
\<close>

theorem C2_ready_fires_once_at_Nth_success:
  "loadedModelCount (fst (deliver_all evs (AssetManager models, h))) = successes evs \<and>
   onLoad_calls (fst (deliver_all evs (AssetManager models, h))) =
     (if 0 < length models \<and> length models \<le> successes evs then 1 else 0) \<and>
   onLoad_calls (fst (deliver_all (evs @ [ev]) (AssetManager models, h))) =
     onLoad_calls (fst (deliver_all evs (AssetManager models, h))) +
       (if is_success ev \<and> successes evs + 1 = length models then 1 else 0) \<and>
   (distinct (completed evs) \<and> set (completed evs) \<subseteq> fst ` set models \<and>
      (\<exists>ev \<in> set evs. is_failure ev) \<longrightarrow>
    onLoad_calls (fst (deliver_all evs (AssetManager models, h))) = 0)"
proof -
  let ?st = "deliver_all evs (AssetManager models, h)"
  have c: "loadedModelCount (fst ?st) = successes evs"
    by (simp add: deliver_all_count AssetManager_def)
  have m: "modelCount (fst ?st) = length models"
    by (simp add: deliver_all_modelCount AssetManager_def)
  have f: "onLoad_calls (fst ?st) =
     (if 0 < length models \<and> length models \<le> successes evs then 1 else 0)"
    by (simp add: deliver_all_calls AssetManager_def)
  have s: "onLoad_calls (fst (deliver_all (evs @ [ev]) (AssetManager models, h))) =
     onLoad_calls (fst ?st) +
       (if is_success ev \<and> successes evs + 1 = length models then 1 else 0)"
    by (simp add: deliver_all_append deliver_calls c m)
  have z: "distinct (completed evs) \<and> set (completed evs) \<subseteq> fst ` set models \<and>
      (\<exists>ev \<in> set evs. is_failure ev) \<longrightarrow> onLoad_calls (fst ?st) = 0"
  proof (intro impI, elim conjE)
    assume "distinct (completed evs)" and "set (completed evs) \<subseteq> fst ` set models"
      and "\<exists>ev \<in> set evs. is_failure ev"
    then have "successes evs < length models" by (rule failure_bounds_successes)
    with f show "onLoad_calls (fst ?st) = 0" by simp
  qed
  from c f s z show ?thesis by blast
qed

text \<open>
  The catalogue of two resources: after one success and one failure the callback has
  not run, and a further success of the first load's kind would be the second success
  and run it.
\<close>

theorem C2_ready_witness:
  "distinct (completed [Loaded ''grass'' demo_meta demo_glb, Failed ''road-straight'']) \<and>
   set (completed [Loaded ''grass'' demo_meta demo_glb, Failed ''road-straight''])
     \<subseteq> fst ` set demo_models \<and>
   (\<exists>ev \<in> set [Loaded ''grass'' demo_meta demo_glb, Failed ''road-straight'']. is_failure ev) \<and>
   loadedModelCount (fst (deliver_all
       [Loaded ''grass'' demo_meta demo_glb, Failed ''road-straight'']
       (AssetManager demo_models, empty_heap))) = 1 \<and>
   onLoad_calls (fst (deliver_all
       [Loaded ''grass'' demo_meta demo_glb, Failed ''road-straight'']
       (AssetManager demo_models, empty_heap))) = 0 \<and>
   onLoad_calls (fst (deliver_all
       ([Loaded ''grass'' demo_meta demo_glb, Failed ''road-straight''] @
        [Loaded ''road-straight'' demo_meta demo_glb])
       (AssetManager demo_models, empty_heap))) = 1"
  using C2_ready_fires_once_at_Nth_success
    [of "[Loaded ''grass'' demo_meta demo_glb, Failed ''road-straight'']" demo_models
        empty_heap "Loaded ''road-straight'' demo_meta demo_glb"]
  by (simp add: completed_def successes_def demo_models_def)

section \<open>The mesh factory\<close>

text \<open>
  C10. Two tiles whose zone buildings differ only in the \<open>developed\<close> flag get the same
  result from \<open>createZoneMesh\<close> on the same heap: the same outcome, the same mesh, the
  same heap (hence the same model, position, rotation and tint).
\<close>

theorem C10_developed_has_no_effect:
  "createZoneMesh am (t\<lparr>building := Some (zone\<lparr>developed := d1\<rparr>)\<rparr>) h =
   createZoneMesh am (t\<lparr>building := Some (zone\<lparr>developed := d2\<rparr>)\<rparr>) h"
  by (simp add: createZoneMesh_def zoneModelName_def Let_def
           split: sum.split prod.split option.split)

section \<open>Cloning materials\<close>

lemma mat_refs_Object3D:
  "mat_refs (Object3D p cs) =
     (case material p of None \<Rightarrow> [] | Some r \<Rightarrow> [r]) @ concat (map mat_refs cs)"
proof -
  have "concat (map (\<lambda>p. case material p of None \<Rightarrow> [] | Some r \<Rightarrow> [r]) (concat (map nodes cs)))
        = concat (map mat_refs cs)"
    by (induction cs) (simp_all add: mat_refs_def)
  then show ?thesis by (simp add: mat_refs_def)
qed

text \<open>
  The clones \<open>cloneMaterials\<close> allocates are appended to the material store, one
  per material of the tree, and the tree it returns refers to exactly these new cells,
  in traversal order.
\<close>

lemma cloneMaterials_fresh:
  "cloneMaterials tr ob ms = (ob', ms') \<Longrightarrow>
     length ms \<le> length ms' \<and> take (length ms) ms' = ms \<and>
     mat_refs ob' = [length ms..<length ms'] \<and>
     length (mat_refs ob) = length ms' - length ms"
  and cloneMaterialsList_fresh:
  "cloneMaterialsList tr obs ms = (obs', ms') \<Longrightarrow>
     length ms \<le> length ms' \<and> take (length ms) ms' = ms \<and>
     concat (map mat_refs obs') = [length ms..<length ms'] \<and>
     length (concat (map mat_refs obs)) = length ms' - length ms"
proof (induction tr ob ms and tr obs ms arbitrary: ob' ms' and obs' ms'
       rule: cloneMaterials_cloneMaterialsList.induct)
  case (1 tr p cs ms)
  show ?case
  proof (cases "material p")
    case None
    with "1.prems" obtain cs' where
      c: "cloneMaterialsList tr cs ms = (cs', ms')" and o: "ob' = Object3D p cs'"
      by (auto split: prod.splits)
    from "1.IH"(1)[OF None c] None o show ?thesis
      by (simp add: mat_refs_Object3D)
  next
    case (Some r)
    let ?ms1 = "ms @ [(ms ! r)\<lparr>transparent := tr\<rparr>]"
    from Some "1.prems" obtain cs' where
      c: "cloneMaterialsList tr cs ?ms1 = (cs', ms')"
      and o: "ob' = Object3D (p\<lparr>material := Some (length ms)\<rparr>) cs'"
      by (auto split: prod.splits)
    from "1.IH"(2)[OF Some c] have
      a: "length ?ms1 \<le> length ms'" and b: "take (length ?ms1) ms' = ?ms1"
      and d: "concat (map mat_refs cs') = [length ?ms1..<length ms']"
      and e: "length (concat (map mat_refs cs)) = length ms' - length ?ms1"
      by auto
    from b have "take (length ms) (take (length ?ms1) ms') = ms" by simp
    then have t: "take (length ms) ms' = ms" by (simp add: min_def)
    from a have lt: "length ms < length ms'" by simp
    have "[length ms..<length ms'] = length ms # [Suc (length ms)..<length ms']"
      using lt by (simp add: upt_conv_Cons)
    with a t d e Some o show ?thesis
      by (simp add: mat_refs_Object3D)
  qed
next
  case (2 tr ms)
  then show ?case by simp
next
  case (3 tr c cs ms)
  from "3.prems" obtain c' ms1 cs' where
    a: "cloneMaterials tr c ms = (c', ms1)" and
    b: "cloneMaterialsList tr cs ms1 = (cs', ms')" and o: "obs' = c' # cs'"
    by (auto split: prod.splits)
  from "3.IH"(1)[OF a] have
    a1: "length ms \<le> length ms1" and a2: "take (length ms) ms1 = ms"
    and a3: "mat_refs c' = [length ms..<length ms1]"
    and a4: "length (mat_refs c) = length ms1 - length ms" by auto
  from "3.IH"(2)[OF a[symmetric] b] have
    b1: "length ms1 \<le> length ms'" and b2: "take (length ms1) ms' = ms1"
    and b3: "concat (map mat_refs cs') = [length ms1..<length ms']"
    and b4: "length (concat (map mat_refs cs)) = length ms' - length ms1" by auto
  have "take (length ms) (take (length ms1) ms') = ms" using a2 b2 by simp
  then have t: "take (length ms) ms' = ms" using a1 by (simp add: min_def)
  have "[length ms..<length ms'] = [length ms..<length ms1] @ [length ms1..<length ms']"
    using a1 b1 by (metis le_Suc_ex upt_add_eq_append)
  with a1 b1 t a3 b3 a4 b4 o show ?case by simp
qed

lemma cloneMaterials_root:
  "cloneMaterials tr ob ms = (ob', ms') \<Longrightarrow>
   material (props ob') = (case material (props ob) of None \<Rightarrow> None | Some r \<Rightarrow> Some (length ms))"
  by (cases ob) (auto split: option.splits prod.splits)

lemma cloneMesh_Inr:
  "cloneMesh am name tr h = Inr (m, h') \<Longrightarrow>
   \<exists>tmpl ob. meshes am name = Some tmpl \<and> cloneMaterials tr tmpl (mats h) = (ob, mats h') \<and>
             m = length (objs h) \<and> objs h' = objs h @ [ob]"
  by (auto simp: cloneMesh_def split: option.splits prod.splits)

lemma objs_update_props [simp]:
  "objs (update_props r f h) =
     (objs h)[r := Object3D (f (props (objs h ! r))) (children (objs h ! r))]"
  by (simp add: update_props_def)

lemma mats_update_props [simp]: "mats (update_props r f h) = mats h"
  by (simp add: update_props_def)

lemma objs_set_visible [simp]:
  "objs (set_visible t v h) =
     (objs h)[t := Object3D ((props (objs h ! t))\<lparr>visible := v\<rparr>) (children (objs h ! t))]"
  by (simp add: set_visible_def)

lemma mats_set_visible [simp]: "mats (set_visible t v h) = mats h"
  by (simp add: set_visible_def)

lemma createRoadMesh_Inr:
  "createRoadMesh am ti h = Inr (m, h') \<Longrightarrow>
   \<exists>road tmpl ob. building ti = Some road \<and> meshes am (roadModelName road) = Some tmpl \<and>
     cloneMaterials False tmpl (mats h) = (ob, mats h') \<and> m = length (objs h) \<and>
     objs h' = objs h @ [Object3D ((props ob)\<lparr>userData := Some (tile_x ti, tile_y ti),
                              rotationY := rotation road,
                              position := (pos_x road, 0, pos_y road)\<rparr>) (children ob)]"
  by (auto simp: createRoadMesh_def split: option.splits sum.splits dest!: cloneMesh_Inr)

lemma createZoneMesh_Inr:
  "createZoneMesh am ti h = Inr (m, h') \<Longrightarrow>
   \<exists>zone tmpl ob ms1. building ti = Some zone \<and> meshes am (zoneModelName zone) = Some tmpl \<and>
     cloneMaterials False tmpl (mats h) = (ob, ms1) \<and> m = length (objs h) \<and>
     objs h' = objs h @ [Object3D ((props ob)\<lparr>userData := Some (tile_x ti, tile_y ti),
                              rotationY := rotation zone,
                              position := (pos_x zone, 0, pos_y zone)\<rparr>) (children ob)] \<and>
     (abandoned zone \<longrightarrow>
        (\<exists>r. material (props ob) = Some r \<and> mats h' = ms1[r := (ms1 ! r)\<lparr>color := 0x707070\<rparr>])) \<and>
     (\<not> abandoned zone \<longrightarrow> mats h' = ms1)"
  by (auto simp: createZoneMesh_def Let_def split: option.splits sum.splits if_splits
           dest!: cloneMesh_Inr)

lemma createBuildingMesh_heap:
  assumes "createBuildingMesh am ti h = Inr (mesh, h')"
  shows "(mesh = None \<and> h' = h) \<or>
         (mesh = Some (length (objs h)) \<and> (\<exists>ob. objs h' = objs h @ [ob]) \<and>
          length (mats h) \<le> length (mats h') \<and> take (length (mats h)) (mats h') = mats h)"
proof -
  consider (none) "mesh = None" "h' = h"
    | (zone) m where "mesh = Some m" "createZoneMesh am ti h = Inr (m, h')"
    | (road) m where "mesh = Some m" "createRoadMesh am ti h = Inr (m, h')"
    using assms
    by (auto simp: createBuildingMesh_def split: option.splits if_splits sum.splits)
  then show ?thesis
  proof cases
    case none
    then show ?thesis by simp
  next
    case (zone m)
    from createZoneMesh_Inr[OF zone(2)] obtain z tmpl ob ms1 where f:
      "building ti = Some z \<and> meshes am (zoneModelName z) = Some tmpl \<and>
       cloneMaterials False tmpl (mats h) = (ob, ms1) \<and> m = length (objs h) \<and>
       objs h' = objs h @ [Object3D ((props ob)\<lparr>userData := Some (tile_x ti, tile_y ti),
                              rotationY := rotation z,
                              position := (pos_x z, 0, pos_y z)\<rparr>) (children ob)] \<and>
       (abandoned z \<longrightarrow>
        (\<exists>r. material (props ob) = Some r \<and> mats h' = ms1[r := (ms1 ! r)\<lparr>color := 0x707070\<rparr>])) \<and>
       (\<not> abandoned z \<longrightarrow> mats h' = ms1)"
      by (elim exE) (rule that, assumption)
    from f have c: "cloneMaterials False tmpl (mats h) = (ob, ms1)"
      and m: "m = length (objs h)"
      and o0: "objs h' = objs h @ [Object3D ((props ob)\<lparr>userData := Some (tile_x ti, tile_y ti),
                              rotationY := rotation z,
                              position := (pos_x z, 0, pos_y z)\<rparr>) (children ob)]"
      and t: "abandoned z \<longrightarrow>
        (\<exists>r. material (props ob) = Some r \<and> mats h' = ms1[r := (ms1 ! r)\<lparr>color := 0x707070\<rparr>])"
      and t': "\<not> abandoned z \<longrightarrow> mats h' = ms1"
      by simp_all
    from o0 have o: "\<exists>ob. objs h' = objs h @ [ob]" by blast
    from cloneMaterials_fresh[OF c] have
      l: "length (mats h) \<le> length ms1" and tk: "take (length (mats h)) ms1 = mats h" by auto
    show ?thesis
    proof (cases "abandoned z")
      case False
      with t' l tk zone(1) m o show ?thesis by simp
    next
      case True
      with t obtain r where r: "material (props ob) = Some r"
        and mh: "mats h' = ms1[r := (ms1 ! r)\<lparr>color := 0x707070\<rparr>]" by auto
      from cloneMaterials_root[OF c] r have "r = length (mats h)"
        by (auto split: option.splits)
      with mh l tk zone(1) m o show ?thesis by simp
    qed
  next
    case (road m)
    from createRoadMesh_Inr[OF road(2)] obtain rd tmpl ob where f:
      "building ti = Some rd \<and> meshes am (roadModelName rd) = Some tmpl \<and>
       cloneMaterials False tmpl (mats h) = (ob, mats h') \<and> m = length (objs h) \<and>
       objs h' = objs h @ [Object3D ((props ob)\<lparr>userData := Some (tile_x ti, tile_y ti),
                              rotationY := rotation rd,
                              position := (pos_x rd, 0, pos_y rd)\<rparr>) (children ob)]"
      by (elim exE) (rule that, assumption)
    from f have c: "cloneMaterials False tmpl (mats h) = (ob, mats h')"
      and m: "m = length (objs h)"
      and o0: "objs h' = objs h @ [Object3D ((props ob)\<lparr>userData := Some (tile_x ti, tile_y ti),
                              rotationY := rotation rd,
                              position := (pos_x rd, 0, pos_y rd)\<rparr>) (children ob)]"
      by simp_all
    from o0 have o: "\<exists>ob. objs h' = objs h @ [ob]" by blast
    from cloneMaterials_fresh[OF c] road(1) m o show ?thesis by simp
  qed
qed

section \<open>One step of the synchronisation loop\<close>

lemma applyTile_bad_slot:
  "buildings_at sc x y = Inl e \<Longrightarrow> applyTile am x y (c, sc, h) = (Some e, (c, sc, h))"
  by (simp add: applyTile_def)

lemma applyTile_bad_terrain:
  "buildings_at sc x y = Inr ex \<Longrightarrow> terrain_at sc x y = Inl e \<Longrightarrow>
   applyTile am x y (c, sc, h) = (Some e, (c, sc, h))"
  by (simp add: applyTile_def)

lemma applyTile_quiet:
  "buildings_at sc x y = Inr ex \<Longrightarrow> terrain_at sc x y = Inr t \<Longrightarrow>
   \<not> needs_sync c sc x y \<Longrightarrow>
   applyTile am x y (c, sc, h) =
     (None, (c, sc, set_visible t (terrain_visible (getTile c x y)) h))"
  by (auto simp: applyTile_def needs_sync_def tile_building_def Let_def
           split: option.splits)

lemma applyTile_removal:
  "buildings_at sc x y = Inr (Some m) \<Longrightarrow> terrain_at sc x y = Inr t \<Longrightarrow>
   tile_building (getTile c x y) = None \<Longrightarrow>
   applyTile am x y (c, sc, h) =
     (None, (c, sc\<lparr>root_children := remove1 m (root_children sc),
                     buildings := (buildings sc)[x := (buildings sc ! x)[y := None]],
                     calls := calls sc @ [RootRemove m, UpdateTile x y None]\<rparr>,
             set_visible t (terrain_visible (getTile c x y)) h))"
  by (auto simp: applyTile_def tile_building_def Let_def updateTile_def set_building_def
        root_remove_def split: option.splits)

lemma applyTile_stale_fail:
  "buildings_at sc x y = Inr (Some m) \<Longrightarrow> terrain_at sc x y = Inr t \<Longrightarrow>
   getTile c x y = Some ti \<Longrightarrow> building ti = Some b \<Longrightarrow> isMeshOutOfDate b \<Longrightarrow>
   createBuildingMesh am ti (set_visible t (terrain_visible (getTile c x y)) h) = Inl e \<Longrightarrow>
   applyTile am x y (c, sc, h) =
     (Some e, (c, sc\<lparr>root_children := remove1 m (root_children sc),
                       calls := calls sc @ [RootRemove m]\<rparr>,
               set_visible t (terrain_visible (getTile c x y)) h))"
  by (simp add: applyTile_def tile_building_def Let_def root_remove_def)

lemma applyTile_stale_ok:
  "buildings_at sc x y = Inr (Some m) \<Longrightarrow> terrain_at sc x y = Inr t \<Longrightarrow>
   getTile c x y = Some ti \<Longrightarrow> building ti = Some b \<Longrightarrow> isMeshOutOfDate b \<Longrightarrow>
   createBuildingMesh am ti (set_visible t (terrain_visible (getTile c x y)) h) =
     Inr (mesh, h2) \<Longrightarrow>
   applyTile am x y (c, sc, h) =
     (None,
      (c\<lparr>tiles := (tiles c)((x, y) := Some (ti\<lparr>building := Some (b\<lparr>isMeshOutOfDate := False\<rparr>)\<rparr>))\<rparr>,
       sc\<lparr>root_children :=
            (case mesh of
               None \<Rightarrow> remove1 m (root_children sc)
             | Some m' \<Rightarrow> remove1 m' (remove1 m (root_children sc)) @ [m']),
          buildings := (buildings sc)[x := (buildings sc ! x)[y := mesh]],
          calls := calls sc @ [RootRemove m, RootAdd mesh] @
                   (if btype b = ''road''
                    then [UpdateTile x y (Some (b\<lparr>isMeshOutOfDate := False\<rparr>))] else [])\<rparr>,
       h2))"
  by (simp add: applyTile_def tile_building_def Let_def updateTile_def set_building_def
        root_remove_def root_add_def split: option.splits)

lemma applyTile_cases [case_names bad_slot bad_terrain quiet removal stale_fail stale_ok]:
  obtains
    (bad_slot) e where "buildings_at sc x y = Inl e"
  | (bad_terrain) ex e where "buildings_at sc x y = Inr ex" "terrain_at sc x y = Inl e"
  | (quiet) ex t where "buildings_at sc x y = Inr ex" "terrain_at sc x y = Inr t"
      "\<not> needs_sync c sc x y"
  | (removal) m t where "buildings_at sc x y = Inr (Some m)" "terrain_at sc x y = Inr t"
      "tile_building (getTile c x y) = None"
  | (stale_fail) m t ti b e where "buildings_at sc x y = Inr (Some m)"
      "terrain_at sc x y = Inr t" "getTile c x y = Some ti" "building ti = Some b"
      "isMeshOutOfDate b"
      "createBuildingMesh am ti (set_visible t (terrain_visible (getTile c x y)) h) = Inl e"
  | (stale_ok) m t ti b mesh h2 where "buildings_at sc x y = Inr (Some m)"
      "terrain_at sc x y = Inr t" "getTile c x y = Some ti" "building ti = Some b"
      "isMeshOutOfDate b"
      "createBuildingMesh am ti (set_visible t (terrain_visible (getTile c x y)) h) =
         Inr (mesh, h2)"
proof (cases "buildings_at sc x y")
  case (Inl e)
  then show ?thesis by (rule bad_slot)
next
  case (Inr ex)
  note slot = this
  show ?thesis
  proof (cases "terrain_at sc x y")
    case (Inl e)
    with slot show ?thesis by (rule bad_terrain)
  next
    case (Inr t)
    note ter = this
    show ?thesis
    proof (cases "needs_sync c sc x y")
      case False
      with slot ter show ?thesis by (rule quiet)
    next
      case True
      then obtain m where m: "ex = Some m"
        using slot by (auto simp: needs_sync_def split: option.splits)
      show ?thesis
      proof (cases "tile_building (getTile c x y)")
        case None
        with slot ter m show ?thesis by (auto intro: removal)
      next
        case (Some b)
        then obtain ti where ti: "getTile c x y = Some ti" "building ti = Some b"
          by (auto simp: tile_building_def split: option.splits)
        from True Some slot m have st: "isMeshOutOfDate b"
          by (simp add: needs_sync_def)
        show ?thesis
        proof (cases "createBuildingMesh am ti
                        (set_visible t (terrain_visible (getTile c x y)) h)")
          case (Inl e)
          with slot ter m ti st show ?thesis by (auto intro: stale_fail)
        next
          case (Inr r)
          then obtain mesh h2 where "r = (mesh, h2)" by (cases r)
          with Inr slot ter m ti st show ?thesis by (auto intro: stale_ok)
        qed
      qed
    qed
  qed
qed

lemma buildings_at_upd_other:
  "(x', y') \<noteq> (x, y) \<Longrightarrow>
   buildings_at (sc\<lparr>root_children := rc, buildings := (buildings sc)[x := (buildings sc ! x)[y := v]],
                    calls := cl\<rparr>) x' y' = buildings_at sc x' y'"
  by (cases "x' = x") (auto simp: buildings_at_def nth_list_update)

lemma buildings_at_upd_same:
  "buildings_at sc x y = Inr (Some m) \<Longrightarrow>
   buildings_at (sc\<lparr>root_children := rc, buildings := (buildings sc)[x := (buildings sc ! x)[y := v]],
                    calls := cl\<rparr>) x y = Inr v"
  by (auto simp: buildings_at_def split: if_splits)

lemma buildings_at_no_upd [simp]:
  "buildings_at (sc\<lparr>root_children := rc, calls := cl\<rparr>) x y = buildings_at sc x y"
  by (simp add: buildings_at_def)

lemma needs_sync_cong:
  "tiles c' (x, y) = tiles c (x, y) \<Longrightarrow> buildings_at sc' x y = buildings_at sc x y \<Longrightarrow>
   needs_sync c' sc' x y = needs_sync c sc x y"
  by (simp add: needs_sync_def getTile_def split: sum.split option.split)

lemma terrain_visible_flag [simp]:
  "building ti = Some b \<Longrightarrow>
   terrain_visible (Some (ti\<lparr>building := Some (b\<lparr>isMeshOutOfDate := f\<rparr>)\<rparr>)) =
   terrain_visible (Some ti)"
  by (simp add: terrain_visible_def)

lemma applyTile_frame:
  assumes "applyTile am x y (c, sc, h) = (eo, (c', sc', h'))"
  shows "csize c' = csize c"
    and "terrain sc' = terrain sc"
    and "(x', y') \<noteq> (x, y) \<Longrightarrow> tiles c' (x', y') = tiles c (x', y')"
    and "(x', y') \<noteq> (x, y) \<Longrightarrow> buildings_at sc' x' y' = buildings_at sc x' y'"
    and "length (buildings sc') = length (buildings sc)"
    and "terrain_visible (getTile c' x' y') = terrain_visible (getTile c x' y')"
    and "\<exists>new. calls sc' = calls sc @ new"
proof -
  have "csize c' = csize c \<and> terrain sc' = terrain sc \<and>
        ((x', y') \<noteq> (x, y) \<longrightarrow> tiles c' (x', y') = tiles c (x', y')) \<and>
        ((x', y') \<noteq> (x, y) \<longrightarrow> buildings_at sc' x' y' = buildings_at sc x' y') \<and>
        length (buildings sc') = length (buildings sc) \<and>
        terrain_visible (getTile c' x' y') = terrain_visible (getTile c x' y') \<and>
        (\<exists>new. calls sc' = calls sc @ new)"
  proof (cases rule: applyTile_cases[where sc=sc and x=x and y=y and c=c and am=am and h=h])
    case (bad_slot e)
    with assms show ?thesis by (simp add: applyTile_bad_slot)
  next
    case (bad_terrain ex e)
    with assms show ?thesis by (simp add: applyTile_bad_terrain)
  next
    case (quiet ex t)
    with assms show ?thesis by (simp add: applyTile_quiet)
  next
    case (removal m t)
    from assms applyTile_removal[OF removal, of am h]
    have "c' = c" and "sc' = sc\<lparr>root_children := remove1 m (root_children sc),
                     buildings := (buildings sc)[x := (buildings sc ! x)[y := None]],
                     calls := calls sc @ [RootRemove m, UpdateTile x y None]\<rparr>"
      by simp_all
    then show ?thesis by (simp add: buildings_at_upd_other)
  next
    case (stale_fail m t ti b e)
    from assms applyTile_stale_fail[OF stale_fail]
    have "c' = c" and "sc' = sc\<lparr>root_children := remove1 m (root_children sc),
                       calls := calls sc @ [RootRemove m]\<rparr>"
      by simp_all
    then show ?thesis by simp
  next
    case (stale_ok m t ti b mesh h2)
    from assms applyTile_stale_ok[OF stale_ok]
    have c': "c' = c\<lparr>tiles := (tiles c)((x, y) := Some (ti\<lparr>building := Some (b\<lparr>isMeshOutOfDate := False\<rparr>)\<rparr>))\<rparr>"
      and sc': "sc' = sc\<lparr>root_children :=
            (case mesh of
               None \<Rightarrow> remove1 m (root_children sc)
             | Some m' \<Rightarrow> remove1 m' (remove1 m (root_children sc)) @ [m']),
          buildings := (buildings sc)[x := (buildings sc ! x)[y := mesh]],
          calls := calls sc @ [RootRemove m, RootAdd mesh] @
                   (if btype b = ''road''
                    then [UpdateTile x y (Some (b\<lparr>isMeshOutOfDate := False\<rparr>))] else [])\<rparr>"
      by simp_all
    have tv: "terrain_visible (getTile c' x' y') = terrain_visible (getTile c x' y')"
    proof (cases "(x', y') = (x, y)")
      case True
      with c' stale_ok(3,4) show ?thesis by (simp add: getTile_def)
    next
      case False
      with c' show ?thesis by (auto simp: getTile_def)
    qed
    from c' sc' tv show ?thesis by (simp add: buildings_at_upd_other)
  qed
  then show "csize c' = csize c"
    and "terrain sc' = terrain sc"
    and "(x', y') \<noteq> (x, y) \<Longrightarrow> tiles c' (x', y') = tiles c (x', y')"
    and "(x', y') \<noteq> (x, y) \<Longrightarrow> buildings_at sc' x' y' = buildings_at sc x' y'"
    and "length (buildings sc') = length (buildings sc)"
    and "terrain_visible (getTile c' x' y') = terrain_visible (getTile c x' y')"
    and "\<exists>new. calls sc' = calls sc @ new"
    by simp_all
qed

lemma applyTile_quiet_after:
  assumes "applyTile am x y (c, sc, h) = (None, (c', sc', h'))"
  shows "\<not> needs_sync c' sc' x y"
proof (cases rule: applyTile_cases[where sc=sc and x=x and y=y and c=c and am=am and h=h])
  case (bad_slot e)
  with assms show ?thesis by (simp add: applyTile_bad_slot)
next
  case (bad_terrain ex e)
  with assms show ?thesis by (simp add: applyTile_bad_terrain)
next
  case (quiet ex t)
  with assms show ?thesis by (simp add: applyTile_quiet)
next
  case (removal m t)
  from assms applyTile_removal[OF removal, of am h]
  have "sc' = sc\<lparr>root_children := remove1 m (root_children sc),
                     buildings := (buildings sc)[x := (buildings sc ! x)[y := None]],
                     calls := calls sc @ [RootRemove m, UpdateTile x y None]\<rparr>"
    by simp
  then have "buildings_at sc' x y = Inr None"
    using buildings_at_upd_same[OF removal(1)] by simp
  then show ?thesis by (simp add: needs_sync_def)
next
  case (stale_fail m t ti b e)
  from assms applyTile_stale_fail[OF stale_fail] show ?thesis by simp
next
  case (stale_ok m t ti b mesh h2)
  from assms applyTile_stale_ok[OF stale_ok]
  have c': "c' = c\<lparr>tiles := (tiles c)((x, y) := Some (ti\<lparr>building := Some (b\<lparr>isMeshOutOfDate := False\<rparr>)\<rparr>))\<rparr>"
    by simp
  then have "tile_building (getTile c' x y) = Some (b\<lparr>isMeshOutOfDate := False\<rparr>)"
    by (simp add: getTile_def tile_building_def)
  then show ?thesis
    by (simp add: needs_sync_def split: sum.split option.split)
qed

lemma applyTile_quiet_same:
  assumes "applyTile am x y (c, sc, h) = (eo, (c', sc', h'))"
    and q: "\<not> needs_sync c sc x y"
  shows "c' = c \<and> sc' = sc"
proof (cases rule: applyTile_cases[where sc=sc and x=x and y=y and c=c and am=am and h=h])
  case (bad_slot e)
  with assms(1) show ?thesis by (simp add: applyTile_bad_slot)
next
  case (bad_terrain ex e)
  with assms(1) show ?thesis by (simp add: applyTile_bad_terrain)
next
  case (quiet ex t)
  with assms(1) show ?thesis by (simp add: applyTile_quiet)
next
  case (removal m t)
  with q show ?thesis by (simp add: needs_sync_def)
next
  case (stale_fail m t ti b e)
  with q show ?thesis by (simp add: needs_sync_def tile_building_def)
next
  case (stale_ok m t ti b mesh h2)
  with q show ?thesis by (simp add: needs_sync_def tile_building_def)
qed

lemma applyTile_quiet_preserved:
  assumes "applyTile am x y (c, sc, h) = (eo, (c', sc', h'))"
    and "\<not> needs_sync c sc x' y'"
  shows "\<not> needs_sync c' sc' x' y'"
proof (cases "(x', y') = (x, y)")
  case True
  then have "x' = x" and "y' = y" by simp_all
  with assms(2) have q: "\<not> needs_sync c sc x y" by simp
  from applyTile_quiet_same[OF assms(1) q] q \<open>x' = x\<close> \<open>y' = y\<close> show ?thesis by simp
next
  case False
  from applyTile_frame(3,4)[OF assms(1) False]
  have "needs_sync c' sc' x' y' = needs_sync c sc x' y'" by (rule needs_sync_cong)
  with assms(2) show ?thesis by simp
qed

lemma applyTile_defined:
  assumes "applyTile am x y (c, sc, h) = (None, w')"
  shows "\<exists>ex t. buildings_at sc x y = Inr ex \<and> terrain_at sc x y = Inr t"
proof (cases rule: applyTile_cases[where sc=sc and x=x and y=y and c=c and am=am and h=h])
  case (bad_slot e)
  with assms show ?thesis by (simp add: applyTile_bad_slot)
next
  case (bad_terrain ex e)
  with assms show ?thesis by (simp add: applyTile_bad_terrain)
next
  case (quiet ex t)
  then show ?thesis by simp
next
  case (removal m t)
  then show ?thesis by simp
next
  case (stale_fail m t ti b e)
  then show ?thesis by simp
next
  case (stale_ok m t ti b mesh h2)
  then show ?thesis by simp
qed

text \<open>What a step does to the stores.\<close>

lemma applyTile_heap:
  assumes "applyTile am x y (c, sc, h) = (eo, (c', sc', h'))"
  shows "\<exists>ext. length (mats h) \<le> length (mats h') \<and> take (length (mats h)) (mats h') = mats h \<and>
           (objs h' = objs h @ ext \<and> eo \<noteq> None \<or>
            (\<exists>t. terrain_at sc x y = Inr t \<and>
                 objs h' = objs (set_visible t (terrain_visible (getTile c x y)) h) @ ext))"
proof (cases rule: applyTile_cases[where sc=sc and x=x and y=y and c=c and am=am and h=h])
  case (bad_slot e)
  with assms have "h' = h" "eo \<noteq> None" by (auto simp: applyTile_bad_slot)
  then show ?thesis by (intro exI[of _ "[]"]) simp
next
  case (bad_terrain ex e)
  with assms have "h' = h" "eo \<noteq> None" by (auto simp: applyTile_bad_terrain)
  then show ?thesis by (intro exI[of _ "[]"]) simp
next
  case (quiet ex t)
  from assms[symmetric] applyTile_quiet[OF quiet, of am h]
  have "h' = set_visible t (terrain_visible (getTile c x y)) h" by simp
  with quiet(2) show ?thesis by (intro exI[of _ "[]"]) simp
next
  case (removal m t)
  from assms[symmetric] applyTile_removal[OF removal, of am h]
  have "h' = set_visible t (terrain_visible (getTile c x y)) h" by simp
  with removal(2) show ?thesis by (intro exI[of _ "[]"]) simp
next
  case (stale_fail m t ti b e)
  from assms[symmetric] applyTile_stale_fail[OF stale_fail]
  have "h' = set_visible t (terrain_visible (getTile c x y)) h" by simp
  with stale_fail(2) show ?thesis by (intro exI[of _ "[]"]) simp
next
  case (stale_ok m t ti b mesh h2)
  from assms[symmetric] applyTile_stale_ok[OF stale_ok] have "h' = h2" by simp
  with createBuildingMesh_heap[OF stale_ok(6)] stale_ok(2) show ?thesis by auto
qed

lemma applyTile_objs_length:
  assumes "applyTile am x y (c, sc, h) = (eo, (c', sc', h'))"
  shows "length (objs h) \<le> length (objs h')"
  using applyTile_heap[OF assms] by auto

lemma applyTile_objs_other:
  assumes "applyTile am x y (c, sc, h) = (eo, (c', sc', h'))"
    and "r < length (objs h)" and "terrain_at sc x y \<noteq> Inr r"
  shows "objs h' ! r = objs h ! r"
  using applyTile_heap[OF assms(1)] assms(2,3) by (auto simp: nth_append)

lemma applyTile_objs_synced:
  assumes "applyTile am x y (c, sc, h) = (eo, (c', sc', h'))"
    and "r < length (objs h)"
    and "visible (props (objs h ! r)) = terrain_visible (getTile c x y)"
  shows "objs h' ! r = objs h ! r"
proof -
  from applyTile_heap[OF assms(1)] obtain ext where
    d: "objs h' = objs h @ ext \<or>
        (\<exists>t. terrain_at sc x y = Inr t \<and>
             objs h' = objs (set_visible t (terrain_visible (getTile c x y)) h) @ ext)"
    by blast
  have "objs (set_visible t (terrain_visible (getTile c x y)) h) ! r = objs h ! r" for t
    using assms(2) assms(3)[symmetric] by (cases "t = r") simp_all
  with d assms(2) show ?thesis by (auto simp: nth_append)
qed

lemma applyTile_visible_set:
  assumes "applyTile am x y (c, sc, h) = (None, (c', sc', h'))"
    and "terrain_at sc x y = Inr t" and "t < length (objs h)"
  shows "visible (props (objs h' ! t)) = terrain_visible (getTile c x y)"
  using applyTile_heap[OF assms(1)] assms(2,3) by (auto simp: nth_append)

section \<open>A pass of the synchronisation loop\<close>

lemma terrain_at_cong: "terrain sc' = terrain sc \<Longrightarrow> terrain_at sc' x y = terrain_at sc x y"
  by (simp add: terrain_at_def)

lemma applyTiles_Cons:
  assumes "applyTiles am ((x, y) # cs) w = (eo, w')"
  obtains (raised) e where "applyTile am x y w = (Some e, w')" "eo = Some e"
  | (continued) w1 where "applyTile am x y w = (None, w1)" "applyTiles am cs w1 = (eo, w')"
  using assms by (auto split: prod.splits option.splits)

lemma applyTiles_frame:
  assumes "applyTiles am cs (c, sc, h) = (eo, (c', sc', h'))"
  shows "csize c' = csize c \<and> terrain sc' = terrain sc \<and>
         length (buildings sc') = length (buildings sc) \<and>
         (\<forall>x y. terrain_visible (getTile c' x y) = terrain_visible (getTile c x y)) \<and>
         length (objs h) \<le> length (objs h') \<and>
         length (mats h) \<le> length (mats h') \<and> take (length (mats h)) (mats h') = mats h \<and>
         (\<forall>x y. \<not> needs_sync c sc x y \<longrightarrow> \<not> needs_sync c' sc' x y) \<and>
         (\<exists>new. calls sc' = calls sc @ new)"
  using assms
proof (induction cs arbitrary: c sc h)
  case Nil
  then show ?case by simp
next
  case (Cons p cs)
  obtain x y where p: "p = (x, y)" by (cases p)
  from Cons.prems[unfolded p] show ?case
  proof (cases rule: applyTiles_Cons)
    case (raised e)
    from applyTile_frame[OF raised(1)] applyTile_heap[OF raised(1)]
      applyTile_quiet_preserved[OF raised(1)]
    show ?thesis by (auto simp: applyTile_objs_length[OF raised(1)])
  next
    case (continued w1)
    obtain c1 sc1 h1 where w1: "w1 = (c1, sc1, h1)" by (cases w1) auto
    note st = continued(1)[unfolded w1]
    note ih = Cons.IH[OF continued(2)[unfolded w1]]
    from applyTile_heap[OF st] have
      m1: "length (mats h) \<le> length (mats h1)" "take (length (mats h)) (mats h1) = mats h"
      by auto
    from ih have
      m2: "length (mats h1) \<le> length (mats h')" "take (length (mats h1)) (mats h') = mats h1"
      by auto
    have "take (length (mats h)) (take (length (mats h1)) (mats h')) = mats h"
      using m1 m2 by simp
    then have tk: "take (length (mats h)) (mats h') = mats h"
      using m1 by (simp add: min_def)
    from applyTile_frame(7)[OF st] ih have cl: "\<exists>new. calls sc' = calls sc @ new"
      by auto
    from applyTile_frame(1,2,5,6)[OF st] applyTile_objs_length[OF st]
      applyTile_quiet_preserved[OF st] ih m1 m2 tk cl
    show ?thesis by simp
  qed
qed

lemma applyTiles_untouched:
  assumes "applyTiles am cs (c, sc, h) = (eo, (c', sc', h'))" and "(x, y) \<notin> set cs"
  shows "tiles c' (x, y) = tiles c (x, y) \<and> buildings_at sc' x y = buildings_at sc x y"
  using assms
proof (induction cs arbitrary: c sc h)
  case Nil
  then show ?case by simp
next
  case (Cons p cs)
  obtain x1 y1 where p: "p = (x1, y1)" by (cases p)
  with Cons.prems(2) have ne: "(x, y) \<noteq> (x1, y1)" and ni: "(x, y) \<notin> set cs" by auto
  from Cons.prems(1)[unfolded p] show ?case
  proof (cases rule: applyTiles_Cons)
    case (raised e)
    from applyTile_frame(3,4)[OF raised(1) ne] show ?thesis by simp
  next
    case (continued w1)
    obtain c1 sc1 h1 where w1: "w1 = (c1, sc1, h1)" by (cases w1) auto
    from applyTile_frame(3,4)[OF continued(1)[unfolded w1] ne]
      Cons.IH[OF continued(2)[unfolded w1] ni]
    show ?thesis by simp
  qed
qed

lemma applyTiles_objs_other:
  assumes "applyTiles am cs (c, sc, h) = (eo, (c', sc', h'))" and "r < length (objs h)"
    and "\<forall>(x, y) \<in> set cs. terrain_at sc x y \<noteq> Inr r"
  shows "objs h' ! r = objs h ! r"
  using assms
proof (induction cs arbitrary: c sc h)
  case Nil
  then show ?case by simp
next
  case (Cons p cs)
  obtain x y where p: "p = (x, y)" by (cases p)
  with Cons.prems(3) have t: "terrain_at sc x y \<noteq> Inr r"
    and ts: "\<forall>(x, y) \<in> set cs. terrain_at sc x y \<noteq> Inr r" by auto
  from Cons.prems(1)[unfolded p] show ?case
  proof (cases rule: applyTiles_Cons)
    case (raised e)
    from applyTile_objs_other[OF raised(1) Cons.prems(2) t] show ?thesis .
  next
    case (continued w1)
    obtain c1 sc1 h1 where w1: "w1 = (c1, sc1, h1)" by (cases w1) auto
    note st = continued(1)[unfolded w1]
    have "terrain_at sc1 x y = terrain_at sc x y" for x y
      using applyTile_frame(2)[OF st] by (rule terrain_at_cong)
    with ts have ts1: "\<forall>(x, y) \<in> set cs. terrain_at sc1 x y \<noteq> Inr r"
      by simp
    from applyTile_objs_length[OF st] Cons.prems(2) have r1: "r < length (objs h1)" by simp
    from Cons.IH[OF continued(2)[unfolded w1] r1 ts1] applyTile_objs_other[OF st Cons.prems(2) t]
    show ?thesis by simp
  qed
qed

text \<open>After a pass that raised nothing, no coordinate it visited needs synchronising.\<close>

lemma applyTiles_settled:
  assumes "applyTiles am cs (c, sc, h) = (None, (c', sc', h'))" and "(x, y) \<in> set cs"
  shows "\<not> needs_sync c' sc' x y \<and> x < length (buildings sc') \<and>
         (\<exists>t. terrain_at sc' x y = Inr t)"
  using assms
proof (induction cs arbitrary: c sc h)
  case Nil
  then show ?case by simp
next
  case (Cons p cs)
  obtain x1 y1 where p: "p = (x1, y1)" by (cases p)
  from Cons.prems(1)[unfolded p] show ?case
  proof (cases rule: applyTiles_Cons)
    case (raised e)
    then show ?thesis by simp
  next
    case (continued w1)
    obtain c1 sc1 h1 where w1: "w1 = (c1, sc1, h1)" by (cases w1) auto
    note st = continued(1)[unfolded w1]
    note rest = continued(2)[unfolded w1]
    show ?thesis
    proof (cases "(x, y) = (x1, y1)")
      case True
      from applyTile_quiet_after[OF st] have q: "\<not> needs_sync c1 sc1 x1 y1" .
      from applyTile_defined[OF st] obtain ex t where
        d: "buildings_at sc x1 y1 = Inr ex" "terrain_at sc x1 y1 = Inr t" by blast
      from d(1) have "x1 < length (buildings sc)"
        by (simp add: buildings_at_def split: if_splits)
      with applyTile_frame(5)[OF st] applyTiles_frame[OF rest]
      have l: "x1 < length (buildings sc')" by simp
      from applyTile_frame(2)[OF st] applyTiles_frame[OF rest]
      have "terrain sc' = terrain sc" by simp
      from terrain_at_cong[OF this] d(2)
      have "terrain_at sc' x1 y1 = Inr t" by simp
      with l q applyTiles_frame[OF rest] True show ?thesis by auto
    next
      case False
      with Cons.prems(2) p have "(x, y) \<in> set cs" by auto
      from Cons.IH[OF rest this] show ?thesis .
    qed
  qed
qed

section \<open>Idempotence of a pass\<close>

lemma set_visible_idem: "set_visible t v (set_visible t v' h) = set_visible t v h"
  by (cases "t < length (objs h)")
     (simp_all add: set_visible_def update_props_def list_update_beyond not_less)

lemma set_visible_comm:
  "t \<noteq> t' \<Longrightarrow>
   set_visible t v (set_visible t' v' h) = set_visible t' v' (set_visible t v h)"
  by (simp add: set_visible_def update_props_def list_update_swap)

lemma set_visible_noop:
  assumes "t < length (objs h)" and "visible (props (objs h ! t)) = v"
  shows "set_visible t v h = h"
proof -
  have "(props (objs h ! t))\<lparr>visible := v\<rparr> = props (objs h ! t)"
    using assms(2) by simp
  then have "(objs h)[t := Object3D ((props (objs h ! t))\<lparr>visible := v\<rparr>) (children (objs h ! t))]
             = objs h"
    by (simp add: list_update_id)
  then show ?thesis by (simp add: set_visible_def update_props_def)
qed

lemma set_visible_beyond: "length (objs h) \<le> t \<Longrightarrow> set_visible t v h = h"
  by (simp add: set_visible_def update_props_def list_update_beyond)

lemma applyTiles_quiet:
  assumes "\<forall>(x, y) \<in> set cs. \<not> needs_sync c sc x y \<and> x < length (buildings sc) \<and>
             (\<exists>t. terrain_at sc x y = Inr t)"
  shows "applyTiles am cs (c, sc, h) = (None, (c, sc, show_terrain c sc cs h))"
  using assms
proof (induction cs arbitrary: h)
  case Nil
  then show ?case by simp
next
  case (Cons p cs)
  obtain x y where p: "p = (x, y)" by (cases p)
  with Cons.prems obtain t where q: "\<not> needs_sync c sc x y" and l: "x < length (buildings sc)"
    and t: "terrain_at sc x y = Inr t" by auto
  from l obtain ex where ex: "buildings_at sc x y = Inr ex" by (simp add: buildings_at_def)
  from Cons.prems have rest: "\<forall>(x, y) \<in> set cs. \<not> needs_sync c sc x y \<and>
      x < length (buildings sc) \<and> (\<exists>t. terrain_at sc x y = Inr t)" by simp
  show ?case
    by (simp add: p applyTile_quiet[OF ex t q] Cons.IH[OF rest] t)
qed

lemma show_terrain_cong:
  assumes "terrain sc' = terrain sc"
    and "\<forall>x y. terrain_visible (getTile c' x y) = terrain_visible (getTile c x y)"
  shows "show_terrain c' sc' cs h = show_terrain c sc cs h"
proof (induction cs arbitrary: h)
  case Nil
  then show ?case by simp
next
  case (Cons p cs)
  obtain x y where p: "p = (x, y)" by (cases p)
  show ?case
    by (simp add: p Cons.IH terrain_at_cong[OF assms(1)] assms(2) split: sum.split)
qed

lemma show_terrain_overwritten:
  assumes "\<exists>(x, y) \<in> set cs. terrain_at sc x y = Inr t"
  shows "show_terrain c sc cs (set_visible t v h) = show_terrain c sc cs h"
  using assms
proof (induction cs arbitrary: h)
  case Nil
  then show ?case by simp
next
  case (Cons p cs)
  obtain x y where p: "p = (x, y)" by (cases p)
  show ?case
  proof (cases "terrain_at sc x y")
    case (Inl e)
    with Cons.prems p have "\<exists>(x, y) \<in> set cs. terrain_at sc x y = Inr t" by auto
    from Cons.IH[OF this] Inl show ?thesis by (simp add: p)
  next
    case (Inr t')
    show ?thesis
    proof (cases "t' = t")
      case True
      with Inr show ?thesis by (simp add: p set_visible_idem)
    next
      case False
      with Cons.prems p Inr have "\<exists>(x, y) \<in> set cs. terrain_at sc x y = Inr t" by auto
      from Cons.IH[OF this] Inr False show ?thesis
        by (simp add: p set_visible_comm[of t' t])
    qed
  qed
qed

lemma show_terrain_commute:
  assumes "\<forall>(x, y) \<in> set cs. terrain_at sc x y \<noteq> Inr t"
  shows "show_terrain c sc cs (set_visible t v h) = set_visible t v (show_terrain c sc cs h)"
  using assms
proof (induction cs arbitrary: h)
  case Nil
  then show ?case by simp
next
  case (Cons p cs)
  obtain x y where p: "p = (x, y)" by (cases p)
  from Cons.prems p have ne: "terrain_at sc x y \<noteq> Inr t"
    and rest: "\<forall>(x, y) \<in> set cs. terrain_at sc x y \<noteq> Inr t" by auto
  show ?case
  proof (cases "terrain_at sc x y")
    case (Inl e)
    with Cons.IH[OF rest] show ?thesis by (simp add: p)
  next
    case (Inr t')
    with ne have "t' \<noteq> t" by simp
    with Cons.IH[OF rest] Inr show ?thesis by (simp add: p set_visible_comm[of t' t])
  qed
qed

text \<open>
  The visibility flags a pass writes are all in place when it ends: writing them again,
  in the same order, changes nothing.
\<close>

lemma applyTiles_terrain_shown:
  assumes "applyTiles am cs (c, sc, h) = (None, (c', sc', h'))"
    and "\<forall>x y t. terrain_at sc x y = Inr t \<longrightarrow> t < length (objs h)"
  shows "show_terrain c sc cs h' = h'"
  using assms
proof (induction cs arbitrary: c sc h)
  case Nil
  then show ?case by simp
next
  case (Cons p cs)
  obtain x y where p: "p = (x, y)" by (cases p)
  from Cons.prems(1)[unfolded p] show ?case
  proof (cases rule: applyTiles_Cons)
    case (raised e)
    then show ?thesis by simp
  next
    case (continued w1)
    obtain c1 sc1 h1 where w1: "w1 = (c1, sc1, h1)" by (cases w1) auto
    note st = continued(1)[unfolded w1]
    note rest = continued(2)[unfolded w1]
    from applyTile_defined[OF st] obtain t where t: "terrain_at sc x y = Inr t" by blast
    with Cons.prems(2) have tl: "t < length (objs h)" by blast
    have ter: "terrain sc1 = terrain sc" by (rule applyTile_frame(2)[OF st])
    have tv: "\<forall>x y. terrain_visible (getTile c1 x y) = terrain_visible (getTile c x y)"
      using applyTile_frame(6)[OF st] by blast
    have wf1: "\<forall>x y t. terrain_at sc1 x y = Inr t \<longrightarrow> t < length (objs h1)"
      using Cons.prems(2) applyTile_objs_length[OF st] terrain_at_cong[OF ter]
      by (metis less_le_trans)
    from Cons.IH[OF rest wf1] show_terrain_cong[OF ter tv]
    have ih: "show_terrain c sc cs h' = h'" by simp
    let ?v = "terrain_visible (getTile c x y)"
    have "show_terrain c sc cs (set_visible t ?v h') = h'"
    proof (cases "\<exists>(x, y) \<in> set cs. terrain_at sc x y = Inr t")
      case True
      from show_terrain_overwritten[OF True] ih show ?thesis by simp
    next
      case False
      then have no: "\<forall>(x, y) \<in> set cs. terrain_at sc x y \<noteq> Inr t" by auto
      then have no1: "\<forall>(x, y) \<in> set cs. terrain_at sc1 x y \<noteq> Inr t"
        using terrain_at_cong[OF ter] by simp
      from applyTile_objs_length[OF st] tl have tl1: "t < length (objs h1)" by simp
      from applyTiles_objs_other[OF rest tl1 no1] applyTile_visible_set[OF st t tl]
      have v: "visible (props (objs h' ! t)) = ?v" by simp
      from applyTiles_frame[OF rest] tl1 have "t < length (objs h')" by simp
      from set_visible_noop[OF this v] show_terrain_commute[OF no] ih
      show ?thesis by simp
    qed
    with t show ?thesis by (simp add: p)
  qed
qed

lemma terrain_allocated_iff:
  "terrain_allocated sc h \<longleftrightarrow> (\<forall>x y t. terrain_at sc x y = Inr t \<longrightarrow> t < length (objs h))"
proof
  assume a: "terrain_allocated sc h"
  show "\<forall>x y t. terrain_at sc x y = Inr t \<longrightarrow> t < length (objs h)"
  proof (intro allI impI)
    fix x y t
    assume "terrain_at sc x y = Inr t"
    then have "x < length (terrain sc)" "y < length (terrain sc ! x)" "t = terrain sc ! x ! y"
      by (auto simp: terrain_at_def split: if_splits)
    with a show "t < length (objs h)"
      by (simp add: terrain_allocated_def list_all_length)
  qed
next
  assume a: "\<forall>x y t. terrain_at sc x y = Inr t \<longrightarrow> t < length (objs h)"
  show "terrain_allocated sc h"
    unfolding terrain_allocated_def list_all_length
  proof (intro allI impI)
    fix x y
    assume "x < length (terrain sc)" "y < length (terrain sc ! x)"
    then have "terrain_at sc x y = Inr (terrain sc ! x ! y)" by (simp add: terrain_at_def)
    with a show "terrain sc ! x ! y < length (objs h)" by blast
  qed
qed

text \<open>
  C5. When a call of \<open>applyChanges\<close> has returned (on a scene whose terrain slots refer
  to objects of the store), a second call on the state it left, with no change of the
  world model in between, returns too and leaves the world model, the scene (the
  children of the root, every slot, the calls made on the root and on the vehicle
  graph) and the heap exactly as they were: no mesh is added or removed, no slot
  changes, no \<open>updateTile\<close> is issued.
\<close>

theorem C5_applyChanges_idempotent:
  assumes "applyChanges am (c, sc, h) = (None, (c', sc', h'))"
    and "terrain_allocated sc h"
  shows "applyChanges am (c', sc', h') = (None, (c', sc', h'))"
proof -
  let ?G = "grid (csize c)"
  from assms(1) have p1: "applyTiles am ?G (c, sc, h) = (None, (c', sc', h'))"
    by (simp add: applyChanges_def)
  from assms(2) have al: "\<forall>x y t. terrain_at sc x y = Inr t \<longrightarrow> t < length (objs h)"
    by (simp add: terrain_allocated_iff)
  from applyTiles_frame[OF p1] have sz: "csize c' = csize c"
    and ter: "terrain sc' = terrain sc"
    and tv: "\<forall>x y. terrain_visible (getTile c' x y) = terrain_visible (getTile c x y)"
    by auto
  have "\<forall>(x, y) \<in> set ?G. \<not> needs_sync c' sc' x y \<and> x < length (buildings sc') \<and>
          (\<exists>t. terrain_at sc' x y = Inr t)"
    using applyTiles_settled[OF p1] by blast
  from applyTiles_quiet[OF this]
  have "applyTiles am ?G (c', sc', h') = (None, (c', sc', show_terrain c' sc' ?G h'))" .
  also have "show_terrain c' sc' ?G h' = show_terrain c sc ?G h'"
    by (rule show_terrain_cong[OF ter tv])
  also have "\<dots> = h'" by (rule applyTiles_terrain_shown[OF p1 al])
  finally show ?thesis by (simp add: applyChanges_def sz)
qed


lemma grid_2: "grid 2 = [(0, 0), (0, 1), (1, 0), (1, 1)]"
  by (simp add: grid_def upt_rec numeral_2_eq_2)

lemmas demo_defs = demo_assets_def demo_city_def demo_scene_def demo_heap_def demo_mesh_def
  demo_props_def demo_road_b_def demo_zone_b_def demo_road_def demo_house_def demo_grass_def
  newLambert_def

lemmas step_defs = applyTile_def buildings_at_def terrain_at_def getTile_def
  tile_building_def terrain_visible_def createBuildingMesh_def createRoadMesh_def
  createZoneMesh_def zoneModelName_def cloneMesh_def roadModelName_def Let_def
  set_visible_def update_props_def root_remove_def root_add_def set_building_def
  updateTile_def

text \<open>
  The 2 x 2 example world: the first call returns, having replaced the road mesh at
  (0,0); the second call returns the state the first one left.
\<close>

theorem C5_idempotent_witness:
  "fst (applyChanges demo_assets (demo_city, demo_scene, demo_heap)) = None \<and>
   terrain_allocated demo_scene demo_heap \<and>
   calls (fst (snd (snd (applyChanges demo_assets (demo_city, demo_scene, demo_heap))))) =
     [RootRemove 4, RootAdd (Some 5),
      UpdateTile 0 0 (Some (demo_road_b\<lparr>isMeshOutOfDate := False\<rparr>))] \<and>
   applyChanges demo_assets (snd (applyChanges demo_assets (demo_city, demo_scene, demo_heap))) =
     (None, snd (applyChanges demo_assets (demo_city, demo_scene, demo_heap)))"
proof -
  obtain c' sc' h' where r:
    "snd (applyChanges demo_assets (demo_city, demo_scene, demo_heap)) = (c', sc', h')"
    by (cases "snd (applyChanges demo_assets (demo_city, demo_scene, demo_heap))") auto
  have a: "fst (applyChanges demo_assets (demo_city, demo_scene, demo_heap)) = None"
    by (simp add: applyChanges_def grid_2 demo_defs step_defs)
  with r have e:
    "applyChanges demo_assets (demo_city, demo_scene, demo_heap) = (None, (c', sc', h'))"
    by (metis prod.collapse)
  have b: "terrain_allocated demo_scene demo_heap"
    by (simp add: terrain_allocated_def demo_defs)
  have cl: "calls (fst (snd (snd (applyChanges demo_assets (demo_city, demo_scene, demo_heap))))) =
     [RootRemove 4, RootAdd (Some 5),
      UpdateTile 0 0 (Some (demo_road_b\<lparr>isMeshOutOfDate := False\<rparr>))]"
    by (simp add: applyChanges_def grid_2 demo_defs step_defs)
  from C5_applyChanges_idempotent[OF e b] a b cl r show ?thesis by simp
qed

section \<open>Buildings without a cached mesh\<close>

lemma applyTiles_quiet_tile_kept:
  assumes "applyTiles am cs (c, sc, h) = (eo, (c', sc', h'))" and "\<not> needs_sync c sc x y"
  shows "tiles c' (x, y) = tiles c (x, y) \<and> buildings_at sc' x y = buildings_at sc x y"
  using assms
proof (induction cs arbitrary: c sc h)
  case Nil
  then show ?case by simp
next
  case (Cons p cs)
  obtain x1 y1 where p: "p = (x1, y1)" by (cases p)
  have step: "tiles c1 (x, y) = tiles c (x, y) \<and> buildings_at sc1 x y = buildings_at sc x y"
    if st: "applyTile am x1 y1 (c, sc, h) = (eo1, (c1, sc1, h1))" for eo1 c1 sc1 h1
  proof (cases "(x, y) = (x1, y1)")
    case True
    with Cons.prems(2) have "\<not> needs_sync c sc x1 y1" by simp
    from applyTile_quiet_same[OF st this] show ?thesis by simp
  next
    case False
    from applyTile_frame(3,4)[OF st False] show ?thesis by simp
  qed
  from Cons.prems(1)[unfolded p] show ?case
  proof (cases rule: applyTiles_Cons)
    case (raised e)
    from step[OF raised(1)] show ?thesis .
  next
    case (continued w1)
    obtain c1 sc1 h1 where w1: "w1 = (c1, sc1, h1)" by (cases w1) auto
    note st = continued(1)[unfolded w1]
    from applyTile_quiet_preserved[OF st Cons.prems(2)]
    have q1: "\<not> needs_sync c1 sc1 x y" .
    from Cons.IH[OF continued(2)[unfolded w1] q1] step[OF st] show ?thesis by simp
  qed
qed

text \<open>
  C9. For a tile whose building is flagged out of date while its slot holds no mesh:
  the loop body at that coordinate leaves the world model and the scene (children of the
  root, slots, calls) as they are and creates no object and no material; it only
  writes the visibility flag of the terrain mesh (or raises, before changing anything,
  when the terrain slot is missing). After any number of loop iterations, and so after
  \<open>applyChanges\<close> whatever its outcome, the tile still holds the same building with
  the flag set and the slot is still empty.
\<close>

theorem C9_new_building_not_synthesised:
  assumes "getTile c x y = Some ti" and "building ti = Some b" and "isMeshOutOfDate b"
    and "buildings_at sc x y = Inr None"
  shows "(case terrain_at sc x y of
            Inl e \<Rightarrow> applyTile am x y (c, sc, h) = (Some e, (c, sc, h))
          | Inr t \<Rightarrow> applyTile am x y (c, sc, h) =
                      (None, (c, sc, set_visible t (\<not> hideTerrain b) h))) \<and>
         (\<forall>cs. getTile (fst (snd (applyTiles am cs (c, sc, h)))) x y = Some ti \<and>
               buildings_at (fst (snd (snd (applyTiles am cs (c, sc, h))))) x y = Inr None) \<and>
         getTile (fst (snd (applyChanges am (c, sc, h)))) x y = Some ti \<and>
         buildings_at (fst (snd (snd (applyChanges am (c, sc, h))))) x y = Inr None"
proof -
  from assms(4) have q: "\<not> needs_sync c sc x y" by (simp add: needs_sync_def)
  from assms(1,2) have tv: "terrain_visible (getTile c x y) = (\<not> hideTerrain b)"
    by (simp add: terrain_visible_def)
  have 1: "case terrain_at sc x y of
            Inl e \<Rightarrow> applyTile am x y (c, sc, h) = (Some e, (c, sc, h))
          | Inr t \<Rightarrow> applyTile am x y (c, sc, h) =
                      (None, (c, sc, set_visible t (\<not> hideTerrain b) h))"
    using applyTile_bad_terrain[OF assms(4)] applyTile_quiet[OF assms(4) _ q] tv
    by (simp split: sum.split)
  have 2: "getTile (fst (snd (applyTiles am cs (c, sc, h)))) x y = Some ti \<and>
           buildings_at (fst (snd (snd (applyTiles am cs (c, sc, h))))) x y = Inr None" for cs
  proof -
    obtain eo c' sc' h' where r: "applyTiles am cs (c, sc, h) = (eo, (c', sc', h'))"
      by (metis prod.collapse)
    from applyTiles_quiet_tile_kept[OF r q] assms(1,4) r show ?thesis
      by (simp add: getTile_def)
  qed
  from 1 2 2[of "grid (csize c)"] show ?thesis by (simp add: applyChanges_def)
qed

lemmas demo_defs2 = demo_defs demo_tile00_def demo_tile11_def demo_city_cleared_def
  demo_assets_no_road_def


text \<open>The zone at (1,1) of the example world: flagged, and no mesh cached.\<close>

theorem C9_witness:
  "getTile demo_city 1 1 = Some demo_tile11 \<and> building demo_tile11 = Some demo_zone_b \<and>
   isMeshOutOfDate demo_zone_b \<and> buildings_at demo_scene 1 1 = Inr None \<and>
   applyTile demo_assets 1 1 (demo_city, demo_scene, demo_heap) =
     (None, (demo_city, demo_scene, set_visible 3 True demo_heap)) \<and>
   getTile (fst (snd (applyChanges demo_assets (demo_city, demo_scene, demo_heap)))) 1 1 =
     Some demo_tile11 \<and>
   buildings_at (fst (snd (snd (applyChanges demo_assets (demo_city, demo_scene, demo_heap))))) 1 1 =
     Inr None"
proof -
  have a: "getTile demo_city 1 1 = Some demo_tile11" "building demo_tile11 = Some demo_zone_b"
    "isMeshOutOfDate demo_zone_b" "buildings_at demo_scene 1 1 = Inr None"
    by (simp_all add: getTile_def buildings_at_def demo_defs2)
  have t: "terrain_at demo_scene 1 1 = Inr 3" "hideTerrain demo_zone_b = False"
    by (simp_all add: terrain_at_def demo_defs2)
  from C9_new_building_not_synthesised[OF a, of demo_assets demo_heap] a t
  show ?thesis by simp
qed

section \<open>References that stay valid across a pass\<close>






lemma cloneMaterials_blank:
  "blank (fst (cloneMaterials tr ob ms)) = blank ob"
  and cloneMaterialsList_blank:
  "map blank (fst (cloneMaterialsList tr obs ms)) = map blank obs"
  by (induction tr ob ms and tr obs ms rule: cloneMaterials_cloneMaterialsList.induct)
     (auto split: option.splits prod.splits)

lemma applyTiles_append:
  "applyTiles am (cs1 @ cs2) w =
     (case applyTiles am cs1 w of
        (Some e, w') \<Rightarrow> (Some e, w')
      | (None, w1) \<Rightarrow> applyTiles am cs2 w1)"
proof (induction cs1 arbitrary: w)
  case Nil
  then show ?case by simp
next
  case (Cons p cs1)
  obtain x y where p: "p = (x, y)" by (cases p)
  show ?case by (simp add: p Cons.IH split: prod.split option.split)
qed

lemma set_grid: "(x, y) \<in> set (grid n) \<longleftrightarrow> x < n \<and> y < n"
  by (auto simp: grid_def)

lemma distinct_grid: "distinct (grid n)"
  by (simp add: grid_def distinct_product)

lemma grid_split:
  assumes "x < n" and "y < n"
  obtains pre post where "grid n = pre @ (x, y) # post" "(x, y) \<notin> set pre" "(x, y) \<notin> set post"
proof -
  from assms have "(x, y) \<in> set (grid n)" by (simp add: set_grid)
  then obtain pre post where g: "grid n = pre @ (x, y) # post" by (auto dest: split_list)
  with distinct_grid[of n] have "(x, y) \<notin> set pre" "(x, y) \<notin> set post" by auto
  with g show ?thesis by (rule that)
qed





section \<open>Rebuilding a road\<close>


lemma mat_refs_placed:
  "mat_refs (Object3D ((props a)\<lparr>userData := u, rotationY := r, position := q\<rparr>) (children a)) =
   mat_refs a"
  by (cases a) (simp add: mat_refs_Object3D)



section \<open>A change at one tile\<close>

lemma applyTile_quiet_heap:
  assumes "applyTile am x y (c, sc, h) = (eo, (c', sc', h'))" and "\<not> needs_sync c sc x y"
  shows "h' = h \<or> (\<exists>t. terrain_at sc x y = Inr t \<and>
                        h' = set_visible t (terrain_visible (getTile c x y)) h)"
proof (cases rule: applyTile_cases[where sc=sc and x=x and y=y and c=c and am=am and h=h])
  case (bad_slot e)
  from assms(1)[symmetric] applyTile_bad_slot[OF bad_slot, of am c h] show ?thesis by simp
next
  case (bad_terrain ex e)
  from assms(1)[symmetric] applyTile_bad_terrain[OF bad_terrain, of am c h] show ?thesis by simp
next
  case (quiet ex t)
  from assms(1)[symmetric] applyTile_quiet[OF quiet, of am h] quiet(2) show ?thesis by simp
next
  case (removal m t)
  with assms(2) show ?thesis by (simp add: needs_sync_def)
next
  case (stale_fail m t ti b e)
  with assms(2) show ?thesis by (simp add: needs_sync_def tile_building_def)
next
  case (stale_ok m t ti b mesh h2)
  with assms(2) show ?thesis by (simp add: needs_sync_def tile_building_def)
qed

text \<open>
  A pass over coordinates none of which needs synchronising changes neither the world
  model nor the scene, creates nothing, and leaves alone every object whose visibility
  flag already has the value the pass writes.
\<close>

lemma applyTiles_all_quiet:
  assumes "applyTiles am cs (c, sc, h) = (eo, (c', sc', h'))"
    and "\<forall>(x, y) \<in> set cs. \<not> needs_sync c sc x y"
  shows "c' = c \<and> sc' = sc \<and> mats h' = mats h \<and> length (objs h') = length (objs h) \<and>
         (\<forall>r < length (objs h).
            (\<forall>(x, y) \<in> set cs. terrain_at sc x y = Inr r \<longrightarrow>
               visible (props (objs h ! r)) = terrain_visible (getTile c x y)) \<longrightarrow>
            objs h' ! r = objs h ! r)"
  using assms
proof (induction cs arbitrary: h)
  case Nil
  then show ?case by simp
next
  case (Cons p cs)
  obtain x y where p: "p = (x, y)" by (cases p)
  from Cons.prems(2) p have q: "\<not> needs_sync c sc x y"
    and qs: "\<forall>(x, y) \<in> set cs. \<not> needs_sync c sc x y" by auto
  have step: "c1 = c \<and> sc1 = sc \<and> mats h1 = mats h \<and> length (objs h1) = length (objs h) \<and>
         (\<forall>r < length (objs h).
            (terrain_at sc x y = Inr r \<longrightarrow>
               visible (props (objs h ! r)) = terrain_visible (getTile c x y)) \<longrightarrow>
            objs h1 ! r = objs h ! r)"
    if st: "applyTile am x y (c, sc, h) = (eo1, (c1, sc1, h1))" for eo1 c1 sc1 h1
  proof -
    from applyTile_quiet_heap[OF st q]
    have l: "mats h1 = mats h \<and> length (objs h1) = length (objs h)" by auto
    have "objs h1 ! r = objs h ! r"
      if "r < length (objs h)"
        and "terrain_at sc x y = Inr r \<longrightarrow>
               visible (props (objs h ! r)) = terrain_visible (getTile c x y)" for r
    proof (cases "terrain_at sc x y = Inr r")
      case True
      with that applyTile_objs_synced[OF st] show ?thesis by simp
    next
      case False
      with that applyTile_objs_other[OF st] show ?thesis by simp
    qed
    with applyTile_quiet_same[OF st q] l show ?thesis by simp
  qed
  from Cons.prems(1)[unfolded p] show ?case
  proof (cases rule: applyTiles_Cons)
    case (raised e)
    from step[OF raised(1)] show ?thesis by (auto simp: p)
  next
    case (continued w1)
    obtain c1 sc1 h1 where w1: "w1 = (c1, sc1, h1)" by (cases w1) auto
    note st = continued(1)[unfolded w1]
    from step[OF st] have e: "c1 = c" "sc1 = sc" and m1: "mats h1 = mats h"
      and l1: "length (objs h1) = length (objs h)"
      and o1: "\<forall>r < length (objs h).
            (terrain_at sc x y = Inr r \<longrightarrow>
               visible (props (objs h ! r)) = terrain_visible (getTile c x y)) \<longrightarrow>
            objs h1 ! r = objs h ! r" by simp_all
    from Cons.IH[OF continued(2)[unfolded w1 e] qs]
    have ih: "c' = c \<and> sc' = sc \<and> mats h' = mats h1 \<and> length (objs h') = length (objs h1)"
      and io: "\<forall>r < length (objs h1).
            (\<forall>(x, y) \<in> set cs. terrain_at sc x y = Inr r \<longrightarrow>
               visible (props (objs h1 ! r)) = terrain_visible (getTile c x y)) \<longrightarrow>
            objs h' ! r = objs h1 ! r" by simp_all
    have "objs h' ! r = objs h ! r"
      if r: "r < length (objs h)"
        and s: "\<forall>(x, y) \<in> set (p # cs). terrain_at sc x y = Inr r \<longrightarrow>
               visible (props (objs h ! r)) = terrain_visible (getTile c x y)" for r
    proof -
      from s p o1 r have a: "objs h1 ! r = objs h ! r" by auto
      with s have "\<forall>(x, y) \<in> set cs. terrain_at sc x y = Inr r \<longrightarrow>
               visible (props (objs h1 ! r)) = terrain_visible (getTile c x y)" by auto
      with io r l1 a show ?thesis by simp
    qed
    with ih m1 l1 show ?thesis by simp
  qed
qed


lemma heap_eqI: "objs h' = objs h \<Longrightarrow> mats h' = mats h \<Longrightarrow> h' = (h :: heap)"
  by simp

text \<open>
  When the mesh factory returns a mesh, when it returns \<open>null\<close>, and when it throws.
\<close>

lemma createBuildingMesh_unrecognised:
  assumes "building ti = Some b" and "requestedModel b = None"
  shows "createBuildingMesh am ti h = Inr (None, h)"
  using assms by (simp add: createBuildingMesh_def requestedModel_def split: if_splits)

lemma createRoadMesh_ready:
  assumes "building ti = Some b" and "meshes am (roadModelName b) = Some tmpl"
  shows "\<exists>h2. createRoadMesh am ti h = Inr (length (objs h), h2)"
  using assms by (simp add: createRoadMesh_def cloneMesh_def split: prod.split)

lemma createZoneMesh_ready:
  assumes "building ti = Some b" and "meshes am (zoneModelName b) = Some tmpl"
    and "\<not> abandoned b \<or> material (props tmpl) \<noteq> None"
  shows "\<exists>h2. createZoneMesh am ti h = Inr (length (objs h), h2)"
proof -
  obtain ob ms where cm: "cloneMaterials False tmpl (mats h) = (ob, ms)"
    by (cases "cloneMaterials False tmpl (mats h)")
  from cloneMaterials_root[OF cm]
  have "material (props tmpl) \<noteq> None \<Longrightarrow> material (props ob) \<noteq> None"
    by (auto split: option.splits)
  with assms cm show ?thesis
    by (auto simp: createZoneMesh_def cloneMesh_def Let_def split: option.splits)
qed

lemma createBuildingMesh_ready:
  assumes "building ti = Some b" and "template_ready am b"
  shows "\<exists>h2. createBuildingMesh am ti h = Inr (Some (length (objs h)), h2)"
proof -
  from assms(2) obtain name tmpl where n: "requestedModel b = Some name"
    and t: "meshes am name = Some tmpl"
    and m: "btype b = ''road'' \<or> \<not> abandoned b \<or> material (props tmpl) \<noteq> None"
    by (auto simp: template_ready_def split: option.splits)
  show ?thesis
  proof (cases "btype b = ''road''")
    case True
    with n have "name = roadModelName b" by (simp add: requestedModel_def)
    with t createRoadMesh_ready[OF assms(1), of am tmpl h]
    obtain h2 where "createRoadMesh am ti h = Inr (length (objs h), h2)" by auto
    with True assms(1) show ?thesis by (simp add: createBuildingMesh_def)
  next
    case False
    with n have z: "btype b = ''residential'' \<or> btype b = ''commercial'' \<or> btype b = ''industrial''"
      and nm: "name = zoneModelName b"
      by (simp_all add: requestedModel_def split: if_splits)
    from False m have "\<not> abandoned b \<or> material (props tmpl) \<noteq> None" by simp
    from createZoneMesh_ready[OF assms(1) t[unfolded nm] this, of h]
    obtain h2 where "createZoneMesh am ti h = Inr (length (objs h), h2)" by auto
    with z assms(1) show ?thesis by (simp add: createBuildingMesh_def)
  qed
qed

lemma createBuildingMesh_not_ready:
  assumes "building ti = Some b" and "requestedModel b \<noteq> None" and "\<not> template_ready am b"
  shows "\<exists>e. createBuildingMesh am ti h = Inl e"
proof (cases "createBuildingMesh am ti h")
  case (Inl e)
  then show ?thesis by simp
next
  case (Inr res)
  obtain mesh h2 where res: "res = (mesh, h2)" by (cases res)
  from assms(2) obtain name where n: "requestedModel b = Some name" by auto
  show ?thesis
  proof (cases "btype b = ''road''")
    case True
    with Inr res assms(1) obtain m' where "createRoadMesh am ti h = Inr (m', h2)"
      by (auto simp: createBuildingMesh_def split: sum.splits)
    from createRoadMesh_Inr[OF this] assms(1) obtain tmpl where
      "meshes am (roadModelName b) = Some tmpl" by auto
    with True assms(3) show ?thesis
      by (simp add: template_ready_def requestedModel_def)
  next
    case False
    with n have z: "btype b = ''residential'' \<or> btype b = ''commercial'' \<or> btype b = ''industrial''"
      by (simp add: requestedModel_def split: if_splits)
    with Inr res assms(1) obtain m' where "createZoneMesh am ti h = Inr (m', h2)"
      by (auto simp: createBuildingMesh_def split: sum.splits)
    from createZoneMesh_Inr[OF this] assms(1) obtain tmpl ob ms1 where
      t: "meshes am (zoneModelName b) = Some tmpl"
      and cm: "cloneMaterials False tmpl (mats h) = (ob, ms1)"
      and ab: "abandoned b \<longrightarrow> (\<exists>r. material (props ob) = Some r)"
      by auto
    from cloneMaterials_root[OF cm] ab have "abandoned b \<longrightarrow> material (props tmpl) \<noteq> None"
      by (auto split: option.splits)
    with t z assms(3) show ?thesis
      by (auto simp: template_ready_def requestedModel_def)
  qed
qed

lemma applyTiles_quiet_returns:
  assumes "\<forall>(x, y) \<in> set cs. \<not> needs_sync c sc x y \<and>
             (\<exists>ex. buildings_at sc x y = Inr ex) \<and> (\<exists>t. terrain_at sc x y = Inr t)"
  shows "fst (applyTiles am cs (c, sc, h)) = None"
  using assms
proof (induction cs arbitrary: h)
  case Nil
  then show ?case by simp
next
  case (Cons p cs)
  obtain x y where p: "p = (x, y)" by (cases p)
  from Cons.prems p obtain ex t where q: "\<not> needs_sync c sc x y"
    and s: "buildings_at sc x y = Inr ex" and t: "terrain_at sc x y = Inr t"
    by auto
  from Cons.prems have r: "\<forall>(x, y) \<in> set cs. \<not> needs_sync c sc x y \<and>
             (\<exists>ex. buildings_at sc x y = Inr ex) \<and> (\<exists>t. terrain_at sc x y = Inr t)"
    by simp
  from applyTile_quiet[OF s t q, of am h] Cons.IH[OF r] show ?case
    by (simp add: p)
qed

lemma arrays_cover_defined:
  assumes "arrays_cover c sc" and "x < csize c" and "y < csize c"
  shows "\<exists>ex. buildings_at sc x y = Inr ex" and "\<exists>t. terrain_at sc x y = Inr t"
proof -
  from assms have "x < length (buildings sc) \<and> x < length (terrain sc) \<and> y < length (terrain sc ! x)"
    by (auto simp: arrays_cover_def set_grid)
  then show "\<exists>ex. buildings_at sc x y = Inr ex" and "\<exists>t. terrain_at sc x y = Inr t"
    by (simp_all add: buildings_at_def terrain_at_def)
qed

lemma digit_char_1: "digit_char (Suc 0) = CHR ''1''"
  by code_simp

lemma string_of_nat_1 [simp]: "string_of_nat (Suc 0) = ''1''"
  by (subst string_of_nat.simps) (simp add: digit_char_1 del: digit_char.simps)

lemmas demo_defs3 = demo_defs2 demo_city_with_def demo_plant_b_def demo_house_b_def

text \<open>
  C6, as stated, on the example world with a building of an unrecognised type at (0,0),
  flagged out of date, its mesh cached, and every other tile in sync: \<open>applyChanges\<close>
  returns, having removed the cached mesh, and the \<open>add\<close> that follows receives
  \<open>null\<close>. No object is added to the root, the slot is left \<open>null\<close> and nothing is
  built: the stale flag has led to one remove and to no added mesh.
\<close>

theorem C6_unrecognised_type_adds_nothing:
  "buildings_at demo_scene 0 0 = Inr (Some 4) \<and>
   tile_building (getTile (demo_city_with demo_plant_b) 0 0) = Some demo_plant_b \<and>
   isMeshOutOfDate demo_plant_b \<and>
   \<not> needs_sync (demo_city_with demo_plant_b) demo_scene 0 1 \<and>
   \<not> needs_sync (demo_city_with demo_plant_b) demo_scene 1 0 \<and>
   \<not> needs_sync (demo_city_with demo_plant_b) demo_scene 1 1 \<and>
   fst (applyChanges demo_assets (demo_city_with demo_plant_b, demo_scene, demo_heap)) = None \<and>
   calls (fst (snd (snd
     (applyChanges demo_assets (demo_city_with demo_plant_b, demo_scene, demo_heap))))) =
     [RootRemove 4, RootAdd None] \<and>
   root_children (fst (snd (snd
     (applyChanges demo_assets (demo_city_with demo_plant_b, demo_scene, demo_heap))))) =
     [0, 1, 2, 3] \<and>
   buildings (fst (snd (snd
     (applyChanges demo_assets (demo_city_with demo_plant_b, demo_scene, demo_heap))))) =
     [[None, None], [None, None]] \<and>
   length (objs (snd (snd (snd
     (applyChanges demo_assets (demo_city_with demo_plant_b, demo_scene, demo_heap)))))) =
     length (objs demo_heap)"
  by (simp add: applyChanges_def grid_2 demo_defs3 step_defs needs_sync_def)

text \<open>
  C6 (amended). Let one tile of the grid need synchronising (its slot holds the mesh
  \<open>m\<close>; its building is gone, or is flagged out of date), the two arrays covering the
  grid and every other tile of the grid being in sync, terrain visibility included.
  Then a call of \<open>applyChanges\<close>

  \<^item> for a removal, returns after exactly \<open>remove(m)\<close> and \<open>updateTile(x, y, null)\<close>;

  \<^item> for a flagged zone or road whose template can be used, returns after exactly
    \<open>remove(m)\<close>, one \<open>add\<close> of a newly built object, and \<open>updateTile\<close> if the
    building is a road; the new object is in the slot and is the last child of the root;

  \<^item> for a flagged building of an unrecognised type, returns after exactly \<open>remove(m)\<close>
    and \<open>add(null)\<close>, which adds nothing; the slot is left \<open>null\<close> and nothing is built;

  \<^item> for a flagged zone or road whose template cannot be used, raises after exactly
    \<open>remove(m)\<close>, with no \<open>add\<close>; the slot still holds \<open>m\<close>.

  In each case the scene differs from the one before in the children of the root, in
  that one slot and in the calls only, so every other slot and the terrain array are
  as before; and every object that existed before, other than the terrain mesh of the
  changed tile, is unchanged.
\<close>

theorem C6_one_tile_changed:
  assumes "x < csize c" and "y < csize c"
    and "buildings_at sc x y = Inr (Some m)" and "needs_sync c sc x y"
    and "arrays_cover c sc"
    and "\<forall>(x', y') \<in> set (grid (csize c)).
           (x', y') \<noteq> (x, y) \<longrightarrow> \<not> needs_sync c sc x' y' \<and> terrain_shown c sc h x' y'"
    and "applyChanges am (c, sc, h) = (eo, (c', sc', h'))"
  shows "(tile_building (getTile c x y) = None \<longrightarrow>
            eo = None \<and> c' = c \<and>
            sc' = sc\<lparr>root_children := remove1 m (root_children sc),
                      buildings := (buildings sc)[x := (buildings sc ! x)[y := None]],
                      calls := calls sc @ [RootRemove m, UpdateTile x y None]\<rparr> \<and>
            length (objs h') = length (objs h) \<and> mats h' = mats h) \<and>
         (\<forall>ti b. getTile c x y = Some ti \<and> building ti = Some b \<longrightarrow>
            (template_ready am b \<longrightarrow>
               eo = None \<and>
               c' = c\<lparr>tiles := (tiles c)((x, y) :=
                          Some (ti\<lparr>building := Some (b\<lparr>isMeshOutOfDate := False\<rparr>)\<rparr>))\<rparr> \<and>
               sc' = sc\<lparr>root_children :=
                          remove1 (length (objs h)) (remove1 m (root_children sc)) @
                          [length (objs h)],
                        buildings :=
                          (buildings sc)[x := (buildings sc ! x)[y := Some (length (objs h))]],
                        calls := calls sc @ [RootRemove m, RootAdd (Some (length (objs h)))] @
                                 (if btype b = ''road''
                                  then [UpdateTile x y (Some (b\<lparr>isMeshOutOfDate := False\<rparr>))]
                                  else [])\<rparr> \<and>
               length (objs h') = Suc (length (objs h)) \<and>
               take (length (mats h)) (mats h') = mats h) \<and>
            (requestedModel b = None \<longrightarrow>
               eo = None \<and>
               c' = c\<lparr>tiles := (tiles c)((x, y) :=
                          Some (ti\<lparr>building := Some (b\<lparr>isMeshOutOfDate := False\<rparr>)\<rparr>))\<rparr> \<and>
               sc' = sc\<lparr>root_children := remove1 m (root_children sc),
                        buildings := (buildings sc)[x := (buildings sc ! x)[y := None]],
                        calls := calls sc @ [RootRemove m, RootAdd None]\<rparr> \<and>
               length (objs h') = length (objs h) \<and> mats h' = mats h) \<and>
            (requestedModel b \<noteq> None \<and> \<not> template_ready am b \<longrightarrow>
               eo \<noteq> None \<and> c' = c \<and>
               sc' = sc\<lparr>root_children := remove1 m (root_children sc),
                        calls := calls sc @ [RootRemove m]\<rparr> \<and>
               length (objs h') = length (objs h) \<and> mats h' = mats h)) \<and>
         (\<forall>x' y'. (x', y') \<noteq> (x, y) \<longrightarrow> buildings_at sc' x' y' = buildings_at sc x' y') \<and>
         terrain sc' = terrain sc \<and>
         (\<forall>r < length (objs h). terrain_at sc x y \<noteq> Inr r \<longrightarrow> objs h' ! r = objs h ! r)"
proof -
  from grid_split[OF assms(1,2)] obtain pre post where
    g: "grid (csize c) = pre @ (x, y) # post" and npre: "(x, y) \<notin> set pre"
    and npost: "(x, y) \<notin> set post" by blast
  from assms(6) g npre npost
  have qpre: "\<forall>(x', y') \<in> set pre. \<not> needs_sync c sc x' y'"
    and spre: "\<forall>(x', y') \<in> set pre. terrain_shown c sc h x' y'"
    and qpost: "\<forall>(x', y') \<in> set post. \<not> needs_sync c sc x' y'"
    and spost: "\<forall>(x', y') \<in> set post. terrain_shown c sc h x' y'"
    by auto
  have def: "(\<exists>ex. buildings_at sc x' y' = Inr ex) \<and> (\<exists>t. terrain_at sc x' y' = Inr t)"
    if "(x', y') \<in> set (grid (csize c))" for x' y'
    using arrays_cover_defined[OF assms(5), of x' y'] that by (simp add: set_grid)
  from assms(7) have pass: "applyTiles am (pre @ (x, y) # post) (c, sc, h) = (eo, (c', sc', h'))"
    by (simp add: applyChanges_def g)
  obtain eo1 c1 sc1 h1 where p1: "applyTiles am pre (c, sc, h) = (eo1, (c1, sc1, h1))"
    by (metis prod.collapse)
  text \<open>Nothing changes before the loop reaches the tile.\<close>
  have "\<forall>(x', y') \<in> set pre. \<not> needs_sync c sc x' y' \<and>
             (\<exists>ex. buildings_at sc x' y' = Inr ex) \<and> (\<exists>t. terrain_at sc x' y' = Inr t)"
    using qpre def g by auto
  from applyTiles_quiet_returns[OF this, of am h] p1 have n1: "eo1 = None" by simp
  from applyTiles_all_quiet[OF p1 qpre] have e1: "c1 = c" "sc1 = sc" and m1: "mats h1 = mats h"
    and l1: "length (objs h1) = length (objs h)"
    and o1: "\<forall>r < length (objs h).
            (\<forall>(x, y) \<in> set pre. terrain_at sc x y = Inr r \<longrightarrow>
               visible (props (objs h ! r)) = terrain_visible (getTile c x y)) \<longrightarrow>
            objs h1 ! r = objs h ! r" by simp_all
  have "objs h1 = objs h"
  proof (rule nth_equalityI[OF l1])
    fix r
    assume "r < length (objs h1)"
    with l1 have r: "r < length (objs h)" by simp
    from spre have "\<forall>(x, y) \<in> set pre. terrain_at sc x y = Inr r \<longrightarrow>
               visible (props (objs h ! r)) = terrain_visible (getTile c x y)"
      by (auto simp: terrain_shown_def)
    with o1 r show "objs h1 ! r = objs h ! r" by simp
  qed
  from heap_eqI[OF this m1] have h1: "h1 = h" .
  from pass p1 e1 h1 n1
  have rest: "applyTiles am ((x, y) # post) (c, sc, h) = (eo, (c', sc', h'))"
    by (simp add: applyTiles_append)
  obtain eo2 c2 sc2 h2 where st: "applyTile am x y (c, sc, h) = (eo2, (c2, sc2, h2))"
    by (metis prod.collapse)
  obtain eo3 c3 sc3 h3 where p2: "applyTiles am post (c2, sc2, h2) = (eo3, (c3, sc3, h3))"
    by (metis prod.collapse)
  text \<open>Nothing but visibility writes happens after it.\<close>
  have ter2: "terrain sc2 = terrain sc" by (rule applyTile_frame(2)[OF st])
  have qpost2: "\<forall>(x', y') \<in> set post. \<not> needs_sync c2 sc2 x' y'"
    using qpost applyTile_quiet_preserved[OF st] by blast
  have dpost2: "\<forall>(x', y') \<in> set post. \<not> needs_sync c2 sc2 x' y' \<and>
             (\<exists>ex. buildings_at sc2 x' y' = Inr ex) \<and> (\<exists>t. terrain_at sc2 x' y' = Inr t)"
  proof (clarify, intro conjI)
    fix x' y'
    assume i: "(x', y') \<in> set post"
    with qpost2 show "\<not> needs_sync c2 sc2 x' y'" by auto
    from i npost have ne: "(x', y') \<noteq> (x, y)" by auto
    from i g have ig: "(x', y') \<in> set (grid (csize c))" by simp
    from def[OF ig] applyTile_frame(4)[OF st ne]
    show "\<exists>ex. buildings_at sc2 x' y' = Inr ex" by simp
    from def[OF ig] terrain_at_cong[OF ter2, of x' y']
    show "\<exists>t. terrain_at sc2 x' y' = Inr t" by simp
  qed
  from applyTiles_quiet_returns[OF dpost2, of am h2] p2 have n3: "eo3 = None" by simp
  from applyTiles_all_quiet[OF p2 qpost2] have e3: "c3 = c2" "sc3 = sc2"
    and m3: "mats h3 = mats h2" and l3: "length (objs h3) = length (objs h2)"
    and o3: "\<forall>r < length (objs h2).
            (\<forall>(x, y) \<in> set post. terrain_at sc2 x y = Inr r \<longrightarrow>
               visible (props (objs h2 ! r)) = terrain_visible (getTile c2 x y)) \<longrightarrow>
            objs h3 ! r = objs h2 ! r" by simp_all
  have objs3: "objs h3 ! r = objs h ! r"
    if r: "r < length (objs h)" and nt: "terrain_at sc x y \<noteq> Inr r" for r
  proof -
    from applyTile_objs_other[OF st r nt] have a: "objs h2 ! r = objs h ! r" .
    from applyTile_objs_length[OF st] r have r2: "r < length (objs h2)" by simp
    have "\<forall>(x0, y0) \<in> set post. terrain_at sc2 x0 y0 = Inr r \<longrightarrow>
               visible (props (objs h2 ! r)) = terrain_visible (getTile c2 x0 y0)"
    proof (clarify)
      fix x0 y0
      assume i: "(x0, y0) \<in> set post" and t: "terrain_at sc2 x0 y0 = Inr r"
      from terrain_at_cong[OF ter2] t have "terrain_at sc x0 y0 = Inr r" by simp
      with spost i have "visible (props (objs h ! r)) = terrain_visible (getTile c x0 y0)"
        by (auto simp: terrain_shown_def)
      with a applyTile_frame(6)[OF st, of x0 y0]
      show "visible (props (objs h2 ! r)) = terrain_visible (getTile c2 x0 y0)" by simp
    qed
    with o3 r2 a show ?thesis by simp
  qed
  text \<open>The result of the pass is the result of the step at the tile, up to visibility writes.\<close>
  have E: "eo = eo2 \<and> c' = c2 \<and> sc' = sc2 \<and> mats h' = mats h2 \<and>
           length (objs h') = length (objs h2)"
    and objs: "\<forall>r < length (objs h). terrain_at sc x y \<noteq> Inr r \<longrightarrow> objs h' ! r = objs h ! r"
  proof -
    show "eo = eo2 \<and> c' = c2 \<and> sc' = sc2 \<and> mats h' = mats h2 \<and>
           length (objs h') = length (objs h2)"
    proof (cases eo2)
      case None
      with rest st p2 n3 e3 m3 l3 show ?thesis by simp
    next
      case (Some e)
      with rest st show ?thesis by simp
    qed
    show "\<forall>r < length (objs h). terrain_at sc x y \<noteq> Inr r \<longrightarrow> objs h' ! r = objs h ! r"
    proof (cases eo2)
      case None
      with rest st p2 have "h' = h3" by simp
      with objs3 show ?thesis by simp
    next
      case (Some e)
      with rest st have "h' = h2" by simp
      with applyTile_objs_other[OF st] show ?thesis by simp
    qed
  qed
  from E have eE: "eo = eo2" and cE: "c' = c2" and sE: "sc' = sc2"
    and mE: "mats h' = mats h2" and lE: "length (objs h') = length (objs h2)" by simp_all
  from arrays_cover_defined(2)[OF assms(5) assms(1,2)]
  obtain t where ter: "terrain_at sc x y = Inr t" by auto
  let ?h1 = "set_visible t (terrain_visible (getTile c x y)) h"
  have A: "eo = None \<and> c' = c \<and>
            sc' = sc\<lparr>root_children := remove1 m (root_children sc),
                      buildings := (buildings sc)[x := (buildings sc ! x)[y := None]],
                      calls := calls sc @ [RootRemove m, UpdateTile x y None]\<rparr> \<and>
            length (objs h') = length (objs h) \<and> mats h' = mats h"
    if nb: "tile_building (getTile c x y) = None"
  proof -
    from applyTile_removal[OF assms(3) ter nb, of am h] st[symmetric]
    have "eo2 = None" and "c2 = c"
      and "sc2 = sc\<lparr>root_children := remove1 m (root_children sc),
                      buildings := (buildings sc)[x := (buildings sc ! x)[y := None]],
                      calls := calls sc @ [RootRemove m, UpdateTile x y None]\<rparr>"
      and "h2 = ?h1" by simp_all
    with eE cE sE mE lE show ?thesis by simp
  qed
  have B1: "eo = None \<and>
               c' = c\<lparr>tiles := (tiles c)((x, y) :=
                          Some (ti\<lparr>building := Some (b\<lparr>isMeshOutOfDate := False\<rparr>)\<rparr>))\<rparr> \<and>
               sc' = sc\<lparr>root_children :=
                          remove1 (length (objs h)) (remove1 m (root_children sc)) @
                          [length (objs h)],
                        buildings :=
                          (buildings sc)[x := (buildings sc ! x)[y := Some (length (objs h))]],
                        calls := calls sc @ [RootRemove m, RootAdd (Some (length (objs h)))] @
                                 (if btype b = ''road''
                                  then [UpdateTile x y (Some (b\<lparr>isMeshOutOfDate := False\<rparr>))]
                                  else [])\<rparr> \<and>
               length (objs h') = Suc (length (objs h)) \<and>
               take (length (mats h)) (mats h') = mats h"
    if ti: "getTile c x y = Some ti" and b: "building ti = Some b"
      and rdy: "template_ready am b" for ti b
  proof -
    from assms(3,4) ti b have stale: "isMeshOutOfDate b"
      by (simp add: needs_sync_def tile_building_def)
    from createBuildingMesh_ready[OF b rdy, of ?h1] obtain hh where
      cb: "createBuildingMesh am ti ?h1 = Inr (Some (length (objs h)), hh)" by auto
    from applyTile_stale_ok[OF assms(3) ter ti b stale cb] st[symmetric]
    have "eo2 = None" and "hh = h2"
      and "c2 = c\<lparr>tiles := (tiles c)((x, y) :=
                          Some (ti\<lparr>building := Some (b\<lparr>isMeshOutOfDate := False\<rparr>)\<rparr>))\<rparr>"
      and "sc2 = sc\<lparr>root_children :=
                          remove1 (length (objs h)) (remove1 m (root_children sc)) @
                          [length (objs h)],
                        buildings :=
                          (buildings sc)[x := (buildings sc ! x)[y := Some (length (objs h))]],
                        calls := calls sc @ [RootRemove m, RootAdd (Some (length (objs h)))] @
                                 (if btype b = ''road''
                                  then [UpdateTile x y (Some (b\<lparr>isMeshOutOfDate := False\<rparr>))]
                                  else [])\<rparr>"
      by simp_all
    moreover from createBuildingMesh_heap[OF cb] \<open>hh = h2\<close>
    have "length (objs h2) = Suc (length (objs h))"
      and "take (length (mats h)) (mats h2) = mats h" by auto
    ultimately show ?thesis using eE cE sE mE lE by simp
  qed
  have B2: "eo = None \<and>
               c' = c\<lparr>tiles := (tiles c)((x, y) :=
                          Some (ti\<lparr>building := Some (b\<lparr>isMeshOutOfDate := False\<rparr>)\<rparr>))\<rparr> \<and>
               sc' = sc\<lparr>root_children := remove1 m (root_children sc),
                        buildings := (buildings sc)[x := (buildings sc ! x)[y := None]],
                        calls := calls sc @ [RootRemove m, RootAdd None]\<rparr> \<and>
               length (objs h') = length (objs h) \<and> mats h' = mats h"
    if ti: "getTile c x y = Some ti" and b: "building ti = Some b"
      and un: "requestedModel b = None" for ti b
  proof -
    from assms(3,4) ti b have stale: "isMeshOutOfDate b"
      by (simp add: needs_sync_def tile_building_def)
    from un have nr: "btype b \<noteq> ''road''" by (auto simp: requestedModel_def split: if_splits)
    note cb = createBuildingMesh_unrecognised[OF b un, of am ?h1]
    from applyTile_stale_ok[OF assms(3) ter ti b stale cb] st[symmetric] nr
    have "eo2 = None" and "h2 = ?h1"
      and "c2 = c\<lparr>tiles := (tiles c)((x, y) :=
                          Some (ti\<lparr>building := Some (b\<lparr>isMeshOutOfDate := False\<rparr>)\<rparr>))\<rparr>"
      and "sc2 = sc\<lparr>root_children := remove1 m (root_children sc),
                        buildings := (buildings sc)[x := (buildings sc ! x)[y := None]],
                        calls := calls sc @ [RootRemove m, RootAdd None]\<rparr>"
      by simp_all
    with eE cE sE mE lE show ?thesis by simp
  qed
  have B3: "eo \<noteq> None \<and> c' = c \<and>
               sc' = sc\<lparr>root_children := remove1 m (root_children sc),
                        calls := calls sc @ [RootRemove m]\<rparr> \<and>
               length (objs h') = length (objs h) \<and> mats h' = mats h"
    if ti: "getTile c x y = Some ti" and b: "building ti = Some b"
      and rq: "requestedModel b \<noteq> None" and nr: "\<not> template_ready am b" for ti b
  proof -
    from assms(3,4) ti b have stale: "isMeshOutOfDate b"
      by (simp add: needs_sync_def tile_building_def)
    from createBuildingMesh_not_ready[OF b rq nr, of ?h1] obtain e where
      cb: "createBuildingMesh am ti ?h1 = Inl e" by auto
    from applyTile_stale_fail[OF assms(3) ter ti b stale cb] st[symmetric]
    have "eo2 = Some e" and "h2 = ?h1" and "c2 = c"
      and "sc2 = sc\<lparr>root_children := remove1 m (root_children sc),
                        calls := calls sc @ [RootRemove m]\<rparr>"
      by simp_all
    with eE cE sE mE lE show ?thesis by simp
  qed
  have C: "\<forall>x' y'. (x', y') \<noteq> (x, y) \<longrightarrow> buildings_at sc' x' y' = buildings_at sc x' y'"
    using applyTile_frame(4)[OF st] sE by blast
  from ter2 sE have T: "terrain sc' = terrain sc" by simp
  show ?thesis
  proof (intro conjI allI impI)
    fix ti b
    assume "getTile c x y = Some ti \<and> building ti = Some b"
    then have ti: "getTile c x y = Some ti" and b: "building ti = Some b" by simp_all
    {
      assume "template_ready am b"
      from B1[OF ti b this]
      show "eo = None"
        and "c' = c\<lparr>tiles := (tiles c)((x, y) :=
                          Some (ti\<lparr>building := Some (b\<lparr>isMeshOutOfDate := False\<rparr>)\<rparr>))\<rparr>"
        and "sc' = sc\<lparr>root_children :=
                          remove1 (length (objs h)) (remove1 m (root_children sc)) @
                          [length (objs h)],
                        buildings :=
                          (buildings sc)[x := (buildings sc ! x)[y := Some (length (objs h))]],
                        calls := calls sc @ [RootRemove m, RootAdd (Some (length (objs h)))] @
                                 (if btype b = ''road''
                                  then [UpdateTile x y (Some (b\<lparr>isMeshOutOfDate := False\<rparr>))]
                                  else [])\<rparr>"
        and "length (objs h') = Suc (length (objs h))"
        and "take (length (mats h)) (mats h') = mats h"
        by simp_all
    }
    {
      assume "requestedModel b = None"
      from B2[OF ti b this]
      show "eo = None"
        and "c' = c\<lparr>tiles := (tiles c)((x, y) :=
                          Some (ti\<lparr>building := Some (b\<lparr>isMeshOutOfDate := False\<rparr>)\<rparr>))\<rparr>"
        and "sc' = sc\<lparr>root_children := remove1 m (root_children sc),
                        buildings := (buildings sc)[x := (buildings sc ! x)[y := None]],
                        calls := calls sc @ [RootRemove m, RootAdd None]\<rparr>"
        and "length (objs h') = length (objs h)" and "mats h' = mats h"
        by simp_all
    }
    {
      assume "requestedModel b \<noteq> None \<and> \<not> template_ready am b"
      then have "requestedModel b \<noteq> None" and "\<not> template_ready am b" by simp_all
      from B3[OF ti b this]
      show "eo \<noteq> None" and "c' = c"
        and "sc' = sc\<lparr>root_children := remove1 m (root_children sc),
                        calls := calls sc @ [RootRemove m]\<rparr>"
        and "length (objs h') = length (objs h)" and "mats h' = mats h"
        by simp_all
    }
  next
    fix x' y'
    assume "(x', y') \<noteq> (x, y)"
    with C show "buildings_at sc' x' y' = buildings_at sc x' y'" by blast
  next
    show "terrain sc' = terrain sc" by (rule T)
  next
    fix r
    assume "r < length (objs h)" and "terrain_at sc x y \<noteq> Inr r"
    with objs show "objs h' ! r = objs h ! r" by blast
  next
    assume nb: "tile_building (getTile c x y) = None"
    from A[OF nb]
    show "eo = None" and "c' = c"
      and "sc' = sc\<lparr>root_children := remove1 m (root_children sc),
                      buildings := (buildings sc)[x := (buildings sc ! x)[y := None]],
                      calls := calls sc @ [RootRemove m, UpdateTile x y None]\<rparr>"
      and "length (objs h') = length (objs h)" and "mats h' = mats h"
      by simp_all
  qed
qed

lemma demo_others_in_sync:
  "\<forall>(x', y') \<in> set (grid 2).
     (x', y') \<noteq> (0, 0) \<longrightarrow>
       \<not> needs_sync c demo_scene x' y' \<and>
       ((\<forall>p. p \<noteq> (0, 0) \<longrightarrow> tiles c p = tiles demo_city p) \<longrightarrow>
        terrain_shown c demo_scene demo_heap x' y')"
  by (auto simp: grid_2 needs_sync_def terrain_shown_def buildings_at_def terrain_at_def
        terrain_visible_def getTile_def demo_defs2)

text \<open>
  The example world with, at (0,0), a flagged zone, the flagged road, no building, and
  the flagged road when its template is missing.
\<close>

theorem C6_witness:
  "buildings_at demo_scene 0 0 = Inr (Some 4) \<and>
   arrays_cover demo_city demo_scene \<and>
   needs_sync (demo_city_with demo_house_b) demo_scene 0 0 \<and>
   template_ready demo_assets demo_house_b \<and>
   needs_sync demo_city demo_scene 0 0 \<and>
   template_ready demo_assets demo_road_b \<and>
   needs_sync demo_city_cleared demo_scene 0 0 \<and>
   \<not> template_ready demo_assets_no_road demo_road_b \<and>
   fst (applyChanges demo_assets (demo_city_with demo_house_b, demo_scene, demo_heap)) = None \<and>
   calls (fst (snd (snd
     (applyChanges demo_assets (demo_city_with demo_house_b, demo_scene, demo_heap))))) =
     [RootRemove 4, RootAdd (Some 5)] \<and>
   root_children (fst (snd (snd
     (applyChanges demo_assets (demo_city_with demo_house_b, demo_scene, demo_heap))))) =
     [0, 1, 2, 3, 5] \<and>
   buildings_at (fst (snd (snd
     (applyChanges demo_assets (demo_city_with demo_house_b, demo_scene, demo_heap))))) 1 1 =
     buildings_at demo_scene 1 1 \<and>
   fst (applyChanges demo_assets (demo_city, demo_scene, demo_heap)) = None \<and>
   calls (fst (snd (snd (applyChanges demo_assets (demo_city, demo_scene, demo_heap))))) =
     [RootRemove 4, RootAdd (Some 5),
      UpdateTile 0 0 (Some (demo_road_b\<lparr>isMeshOutOfDate := False\<rparr>))] \<and>
   terrain (fst (snd (snd (applyChanges demo_assets (demo_city, demo_scene, demo_heap))))) =
     terrain demo_scene \<and>
   fst (applyChanges demo_assets (demo_city_cleared, demo_scene, demo_heap)) = None \<and>
   calls (fst (snd (snd (applyChanges demo_assets (demo_city_cleared, demo_scene, demo_heap))))) =
     [RootRemove 4, UpdateTile 0 0 None] \<and>
   objs (snd (snd (snd (applyChanges demo_assets (demo_city_cleared, demo_scene, demo_heap))))) ! 1 =
     objs demo_heap ! 1 \<and>
   fst (applyChanges demo_assets_no_road (demo_city, demo_scene, demo_heap)) \<noteq> None \<and>
   calls (fst (snd (snd
     (applyChanges demo_assets_no_road (demo_city, demo_scene, demo_heap))))) =
     [RootRemove 4]"
proof -
  let ?zc = "demo_city_with demo_house_b"
  have s: "buildings_at demo_scene 0 0 = Inr (Some 4)"
    "needs_sync ?zc demo_scene 0 0"
    "needs_sync demo_city demo_scene 0 0" "needs_sync demo_city_cleared demo_scene 0 0"
    by (simp_all add: needs_sync_def buildings_at_def getTile_def tile_building_def demo_defs3)
  have z: "0 < csize ?zc" "0 < csize demo_city" "0 < csize demo_city_cleared"
    "csize ?zc = 2" "csize demo_city = 2" "csize demo_city_cleared = 2"
    by (simp_all add: demo_defs3)
  have cov: "arrays_cover demo_city demo_scene"
    by (simp add: arrays_cover_def grid_2 demo_defs3)
  then have cov': "arrays_cover ?zc demo_scene" "arrays_cover demo_city_cleared demo_scene"
    by (simp_all add: arrays_cover_def z)
  have rdy: "template_ready demo_assets demo_house_b" "template_ready demo_assets demo_road_b"
    "\<not> template_ready demo_assets_no_road demo_road_b"
    "requestedModel demo_road_b \<noteq> None"
    by (simp_all add: template_ready_def requestedModel_def zoneModelName_def roadModelName_def
          demo_defs3)
  have same: "\<forall>p. p \<noteq> (0, 0) \<longrightarrow> tiles ?zc p = tiles demo_city p"
    "\<forall>p. p \<noteq> (0, 0) \<longrightarrow> tiles demo_city_cleared p = tiles demo_city p"
    by (simp_all add: demo_city_with_def demo_city_cleared_def)
  have o1: "\<forall>(x', y') \<in> set (grid (csize ?zc)).
     (x', y') \<noteq> (0, 0) \<longrightarrow>
       \<not> needs_sync ?zc demo_scene x' y' \<and> terrain_shown ?zc demo_scene demo_heap x' y'"
    using demo_others_in_sync[of ?zc] same(1) z(4) by auto
  have o2: "\<forall>(x', y') \<in> set (grid (csize demo_city)).
     (x', y') \<noteq> (0, 0) \<longrightarrow>
       \<not> needs_sync demo_city demo_scene x' y' \<and> terrain_shown demo_city demo_scene demo_heap x' y'"
    using demo_others_in_sync[of demo_city] z(5) by auto
  have o3: "\<forall>(x', y') \<in> set (grid (csize demo_city_cleared)).
     (x', y') \<noteq> (0, 0) \<longrightarrow>
       \<not> needs_sync demo_city_cleared demo_scene x' y' \<and>
       terrain_shown demo_city_cleared demo_scene demo_heap x' y'"
    using demo_others_in_sync[of demo_city_cleared] same(2) z(6) by auto
  have g: "getTile ?zc 0 0 = Some \<lparr>tile_x = 0, tile_y = 0, building = Some demo_house_b\<rparr>"
    "getTile demo_city 0 0 = Some demo_tile00" "building demo_tile00 = Some demo_road_b"
    "btype demo_road_b = ''road''" "btype demo_house_b \<noteq> ''road''"
    "tile_building (getTile demo_city_cleared 0 0) = None"
    "terrain_at demo_scene 0 0 = Inr 0" "length (objs demo_heap) = 5"
    "calls demo_scene = []" "root_children demo_scene = [0, 1, 2, 3, 4]"
    by (simp_all add: getTile_def tile_building_def terrain_at_def demo_defs3)
  obtain e1 c1 sc1 h1 where r1:
    "applyChanges demo_assets (?zc, demo_scene, demo_heap) = (e1, (c1, sc1, h1))"
    by (metis prod.collapse)
  obtain e2 c2 sc2 h2 where r2:
    "applyChanges demo_assets (demo_city, demo_scene, demo_heap) = (e2, (c2, sc2, h2))"
    by (metis prod.collapse)
  obtain e3 c3 sc3 h3 where r3:
    "applyChanges demo_assets (demo_city_cleared, demo_scene, demo_heap) = (e3, (c3, sc3, h3))"
    by (metis prod.collapse)
  obtain e4 c4 sc4 h4 where r4:
    "applyChanges demo_assets_no_road (demo_city, demo_scene, demo_heap) = (e4, (c4, sc4, h4))"
    by (metis prod.collapse)
  note A = C6_one_tile_changed[OF z(1) z(1) s(1) s(2) cov'(1) o1 r1]
  note B = C6_one_tile_changed[OF z(2) z(2) s(1) s(3) cov o2 r2]
  note C = C6_one_tile_changed[OF z(3) z(3) s(1) s(4) cov'(2) o3 r3]
  note D = C6_one_tile_changed[OF z(2) z(2) s(1) s(3) cov o2 r4]
  from A have a4: "buildings_at sc1 1 1 = buildings_at demo_scene 1 1" by auto
  from A g rdy have a: "e1 = None" "calls sc1 = [RootRemove 4, RootAdd (Some 5)]"
    "root_children sc1 = [0, 1, 2, 3, 5]" by simp_all
  from B g rdy have b: "e2 = None" "calls sc2 = [RootRemove 4, RootAdd (Some 5),
      UpdateTile 0 0 (Some (demo_road_b\<lparr>isMeshOutOfDate := False\<rparr>))]"
    "terrain sc2 = terrain demo_scene" by simp_all
  from C g have c: "e3 = None" "calls sc3 = [RootRemove 4, UpdateTile 0 0 None]"
    "objs h3 ! 1 = objs demo_heap ! 1" by simp_all
  from D g rdy have d: "e4 \<noteq> None" "calls sc4 = [RootRemove 4]" by simp_all
  from s cov rdy(1-3) a a4 b c d r1 r2 r3 r4 show ?thesis by simp
qed

section \<open>Missing templates\<close>

lemma createBuildingMesh_missing:
  assumes "meshes am name = None" and "building ti = Some b" and "requestedModel b = Some name"
  shows "createBuildingMesh am ti h = Inl (NotFound name)"
  using assms
  by (auto simp: requestedModel_def createBuildingMesh_def createZoneMesh_def
        createRoadMesh_def cloneMesh_def Let_def split: if_splits)

text \<open>
  C3, as stated, on the example world with the road template missing: \<open>applyChanges\<close>
  does not return a null or no-op result, it raises; and it leaves the old mesh
  removed from the root while the slot still holds it.
\<close>

theorem C3_exception_propagates:
  "meshes demo_assets_no_road ''road-straight'' = None \<and>
   fst (applyChanges demo_assets_no_road (demo_city, demo_scene, demo_heap)) =
     Some (NotFound ''road-straight'') \<and>
   root_children (fst (snd (snd
     (applyChanges demo_assets_no_road (demo_city, demo_scene, demo_heap))))) = [0, 1, 2, 3] \<and>
   buildings (fst (snd (snd
     (applyChanges demo_assets_no_road (demo_city, demo_scene, demo_heap))))) =
     [[Some 4, None], [None, None]]"
  by (simp add: applyChanges_def grid_2 demo_defs2 step_defs)

text \<open>
  C3 (amended). When no template is stored under a name, \<open>cloneMesh\<close> fails with
  \<open>NotFound\<close> for that call, before any allocation or write. The failure is not
  turned into a null result: \<open>createBuildingMesh\<close> fails with it for every building
  whose model has that name, the loop body at a tile holding such a building (flagged
  out of date, with a mesh cached) raises it after removing the cached mesh from the
  root, and \<open>applyChanges\<close> on a world with such a tile in its grid raises.
\<close>

theorem C3_missing_template_propagates:
  assumes "meshes am name = None"
  shows "cloneMesh am name tr h = Inl (NotFound name) \<and>
         (\<forall>ti b. building ti = Some b \<and> requestedModel b = Some name \<longrightarrow>
            createBuildingMesh am ti h = Inl (NotFound name)) \<and>
         (\<forall>c sc x y ti b m.
            getTile c x y = Some ti \<and> building ti = Some b \<and> requestedModel b = Some name \<and>
            isMeshOutOfDate b \<and> buildings_at sc x y = Inr (Some m) \<longrightarrow>
            (\<forall>t. terrain_at sc x y = Inr t \<longrightarrow>
               applyTile am x y (c, sc, h) =
                 (Some (NotFound name),
                  (c, sc\<lparr>root_children := remove1 m (root_children sc),
                          calls := calls sc @ [RootRemove m]\<rparr>,
                   set_visible t (\<not> hideTerrain b) h))) \<and>
            (x < csize c \<and> y < csize c \<longrightarrow> fst (applyChanges am (c, sc, h)) \<noteq> None))"
proof -
  have 1: "cloneMesh am name tr h = Inl (NotFound name)"
    using assms by (simp add: cloneMesh_def)
  have 2: "createBuildingMesh am ti h = Inl (NotFound name)"
    if "building ti = Some b" "requestedModel b = Some name" for ti b
    using createBuildingMesh_missing[OF assms that] .
  have 3: "applyTile am x y (c, sc, h) =
                 (Some (NotFound name),
                  (c, sc\<lparr>root_children := remove1 m (root_children sc),
                          calls := calls sc @ [RootRemove m]\<rparr>,
                   set_visible t (\<not> hideTerrain b) h))"
    if ti: "getTile c x y = Some ti" and b: "building ti = Some b"
      and rq: "requestedModel b = Some name" and stale: "isMeshOutOfDate b"
      and slot: "buildings_at sc x y = Inr (Some m)" and ter: "terrain_at sc x y = Inr t"
    for c sc x y ti b m t
  proof -
    from ti b have tv: "terrain_visible (getTile c x y) = (\<not> hideTerrain b)"
      by (simp add: terrain_visible_def)
    from applyTile_stale_fail[OF slot ter ti b stale
        createBuildingMesh_missing[OF assms b rq]] tv
    show ?thesis by simp
  qed
  have 4: "fst (applyChanges am (c, sc, h)) \<noteq> None"
    if ti: "getTile c x y = Some ti" and b: "building ti = Some b"
      and rq: "requestedModel b = Some name" and stale: "isMeshOutOfDate b"
      and slot: "buildings_at sc x y = Inr (Some m)" and x: "x < csize c" and y: "y < csize c"
    for c sc x y ti b m
  proof
    assume n: "fst (applyChanges am (c, sc, h)) = None"
    from grid_split[OF x y] obtain pre post where
      g: "grid (csize c) = pre @ (x, y) # post" and npre: "(x, y) \<notin> set pre" by blast
    obtain c' sc' h' where r: "applyChanges am (c, sc, h) = (None, (c', sc', h'))"
      using n by (metis prod.collapse)
    then have pass: "applyTiles am (pre @ (x, y) # post) (c, sc, h) = (None, (c', sc', h'))"
      by (simp add: applyChanges_def g)
    obtain eo1 c1 sc1 h1 where p1: "applyTiles am pre (c, sc, h) = (eo1, (c1, sc1, h1))"
      by (metis prod.collapse)
    from pass p1 have rest: "applyTiles am ((x, y) # post) (c1, sc1, h1) = (None, (c', sc', h'))"
      by (cases eo1) (simp_all add: applyTiles_append)
    from rest obtain w2 where st: "applyTile am x y (c1, sc1, h1) = (None, w2)"
      by (cases rule: applyTiles_Cons) simp_all
    from applyTiles_untouched[OF p1 npre] ti slot
    have ti1: "getTile c1 x y = Some ti" and slot1: "buildings_at sc1 x y = Inr (Some m)"
      by (simp_all add: getTile_def)
    from applyTile_defined[OF st] obtain t where ter: "terrain_at sc1 x y = Inr t" by auto
    from applyTile_stale_fail[OF slot1 ter ti1 b stale createBuildingMesh_missing[OF assms b rq]]
      st show False by simp
  qed
  from 1 2 3 4 show ?thesis by blast
qed

text \<open>The road at (0,0) of the example world, with the road template missing.\<close>

theorem C3_witness:
  "meshes demo_assets_no_road ''road-straight'' = None \<and>
   getTile demo_city 0 0 = Some demo_tile00 \<and> building demo_tile00 = Some demo_road_b \<and>
   requestedModel demo_road_b = Some ''road-straight'' \<and> isMeshOutOfDate demo_road_b \<and>
   buildings_at demo_scene 0 0 = Inr (Some 4) \<and> terrain_at demo_scene 0 0 = Inr 0 \<and>
   0 < csize demo_city \<and>
   cloneMesh demo_assets_no_road ''road-straight'' False demo_heap =
     Inl (NotFound ''road-straight'') \<and>
   createBuildingMesh demo_assets_no_road demo_tile00 demo_heap =
     Inl (NotFound ''road-straight'') \<and>
   applyTile demo_assets_no_road 0 0 (demo_city, demo_scene, demo_heap) =
     (Some (NotFound ''road-straight''),
      (demo_city,
       demo_scene\<lparr>root_children := remove1 4 (root_children demo_scene),
                   calls := calls demo_scene @ [RootRemove 4]\<rparr>,
       set_visible 0 (\<not> hideTerrain demo_road_b) demo_heap)) \<and>
   fst (applyChanges demo_assets_no_road (demo_city, demo_scene, demo_heap)) \<noteq> None"
proof -
  have m: "meshes demo_assets_no_road ''road-straight'' = None"
    by (simp add: demo_assets_no_road_def)
  have a: "getTile demo_city 0 0 = Some demo_tile00" "building demo_tile00 = Some demo_road_b"
    "requestedModel demo_road_b = Some ''road-straight''" "isMeshOutOfDate demo_road_b"
    "buildings_at demo_scene 0 0 = Inr (Some 4)" "terrain_at demo_scene 0 0 = Inr 0"
    "0 < csize demo_city"
    by (simp_all add: getTile_def buildings_at_def terrain_at_def requestedModel_def
          roadModelName_def demo_defs2)
  from C3_missing_template_propagates[OF m, of False demo_heap] m a show ?thesis by blast
qed

section \<open>Materials of clones\<close>

lemma cloneMaterials_ext:
  "cloneMaterials tr ob ms = (ob', ms') \<Longrightarrow> \<forall>r \<in> set (mat_refs ob). r < length ms \<Longrightarrow>
     ms' = ms @ map (\<lambda>r. (ms ! r)\<lparr>transparent := tr\<rparr>) (mat_refs ob)"
  and cloneMaterialsList_ext:
  "cloneMaterialsList tr obs ms = (obs', ms') \<Longrightarrow>
     \<forall>r \<in> set (concat (map mat_refs obs)). r < length ms \<Longrightarrow>
     ms' = ms @ map (\<lambda>r. (ms ! r)\<lparr>transparent := tr\<rparr>) (concat (map mat_refs obs))"
proof (induction tr ob ms and tr obs ms arbitrary: ob' ms' and obs' ms'
       rule: cloneMaterials_cloneMaterialsList.induct)
  case (1 tr p cs ms)
  show ?case
  proof (cases "material p")
    case None
    with "1.prems" obtain cs' where c: "cloneMaterialsList tr cs ms = (cs', ms')"
      by (auto split: prod.splits)
    from "1.prems"(2) None have "\<forall>r \<in> set (concat (map mat_refs cs)). r < length ms"
      by (simp add: mat_refs_Object3D)
    from "1.IH"(1)[OF None c this] None show ?thesis by (simp add: mat_refs_Object3D)
  next
    case (Some r)
    let ?ms1 = "ms @ [(ms ! r)\<lparr>transparent := tr\<rparr>]"
    from Some "1.prems" obtain cs' where c: "cloneMaterialsList tr cs ?ms1 = (cs', ms')"
      by (auto split: prod.splits)
    from "1.prems"(2) Some have b: "\<forall>r \<in> set (concat (map mat_refs cs)). r < length ms"
      by (simp add: mat_refs_Object3D)
    then have "\<forall>r \<in> set (concat (map mat_refs cs)). r < length ?ms1"
      by (auto simp: less_Suc_eq)
    from "1.IH"(2)[OF Some c this]
    have "ms' = ?ms1 @ map (\<lambda>r. (?ms1 ! r)\<lparr>transparent := tr\<rparr>) (concat (map mat_refs cs))" .
    also have "map (\<lambda>r. (?ms1 ! r)\<lparr>transparent := tr\<rparr>) (concat (map mat_refs cs)) =
               map (\<lambda>r. (ms ! r)\<lparr>transparent := tr\<rparr>) (concat (map mat_refs cs))"
      using b by (intro map_cong refl) (auto simp: nth_append)
    finally show ?thesis using Some by (simp add: mat_refs_Object3D)
  qed
next
  case (2 tr ms)
  then show ?case by simp
next
  case (3 tr c cs ms)
  from "3.prems"(1) obtain c' ms1 cs' where
    a: "cloneMaterials tr c ms = (c', ms1)" and
    b: "cloneMaterialsList tr cs ms1 = (cs', ms')"
    by (auto split: prod.splits)
  from "3.prems"(2) have r1: "\<forall>r \<in> set (mat_refs c). r < length ms"
    and r2: "\<forall>r \<in> set (concat (map mat_refs cs)). r < length ms" by auto
  from "3.IH"(1)[OF a r1]
  have m1: "ms1 = ms @ map (\<lambda>r. (ms ! r)\<lparr>transparent := tr\<rparr>) (mat_refs c)" .
  then have "\<forall>r \<in> set (concat (map mat_refs cs)). r < length ms1" using r2
    by (auto intro: trans_less_add1)
  from "3.IH"(2)[OF a[symmetric] b this]
  have "ms' = ms1 @ map (\<lambda>r. (ms1 ! r)\<lparr>transparent := tr\<rparr>) (concat (map mat_refs cs))" .
  also have "map (\<lambda>r. (ms1 ! r)\<lparr>transparent := tr\<rparr>) (concat (map mat_refs cs)) =
             map (\<lambda>r. (ms ! r)\<lparr>transparent := tr\<rparr>) (concat (map mat_refs cs))"
    using r2 m1 by (intro map_cong refl) (auto simp: nth_append)
  finally show ?case using m1 by simp
qed

lemma map_nth_update_other:
  "r \<notin> set rs \<Longrightarrow> map (nth (xs[r := v])) rs = map (nth xs) rs"
  by (induction rs) auto

lemma map_nth_append_upt:
  "map (nth (xs @ ys)) [length xs..<length xs + length ys] = ys"
  by (rule nth_equalityI) (simp_all add: nth_append)

text \<open>What one call of \<open>cloneMesh\<close> returns.\<close>

lemma cloneMesh_result:
  assumes "cloneMesh am name tr h = Inr (m, h')" and "templates_allocated am h"
  shows "\<exists>tmpl. meshes am name = Some tmpl \<and> m = length (objs h) \<and>
           take (length (objs h)) (objs h') = objs h \<and> length (objs h') = Suc (length (objs h)) \<and>
           blank (objs h' ! m) = blank tmpl \<and>
           mat_refs (objs h' ! m) = [length (mats h)..<length (mats h')] \<and>
           mats h' = mats h @ map (\<lambda>r. (mats h ! r)\<lparr>transparent := tr\<rparr>) (mat_refs tmpl)"
proof -
  from cloneMesh_Inr[OF assms(1)] obtain tmpl ob where
    t: "meshes am name = Some tmpl" and c: "cloneMaterials tr tmpl (mats h) = (ob, mats h')"
    and m: "m = length (objs h)" and o: "objs h' = objs h @ [ob]" by blast
  from assms(2) t have wf: "\<forall>r \<in> set (mat_refs tmpl). r < length (mats h)"
    by (simp add: templates_allocated_def)
  from cloneMaterials_blank(1)[of tr tmpl "mats h"] c have "blank ob = blank tmpl" by simp
  with t m o cloneMaterials_fresh(1)[OF c] cloneMaterials_ext(1)[OF c wf]
  show ?thesis by (simp add: nth_append)
qed


lemma map_nth_append_upt2:
  "map (nth (xs @ ys @ zs)) [length xs..<length xs + length ys] = ys"
  by (rule nth_equalityI) (simp_all add: nth_append)

lemma upt_disjoint: "b \<le> c \<Longrightarrow> set [a..<b] \<inter> set [c..<d] = {}"
  by auto

text \<open>
  C7. Two meshes returned by two calls of \<open>cloneMesh\<close> (the names equal or not; the
  material references of the stored templates being cells of the store): they are two
  objects; each is its template with, at every node that carries a material, a
  material cell allocated by its own call, holding a copy of the template's material
  with \<open>transparent\<close> set from the argument; the two meshes have no material
  reference in common, and none in common with any stored template, whose materials
  are as before; so writing any value to a material of one mesh changes no material of
  the other mesh and no material of any template.
\<close>

theorem C7_clones_share_no_material:
  assumes "cloneMesh am n1 tr1 h = Inr (m1, h1)" and "cloneMesh am n2 tr2 h1 = Inr (m2, h2)"
    and "templates_allocated am h"
  shows "\<exists>t1 t2. meshes am n1 = Some t1 \<and> meshes am n2 = Some t2 \<and> m1 \<noteq> m2 \<and>
     blank (objs h2 ! m1) = blank t1 \<and> blank (objs h2 ! m2) = blank t2 \<and>
     mat_refs (objs h2 ! m1) = [length (mats h)..<length (mats h1)] \<and>
     mat_refs (objs h2 ! m2) = [length (mats h1)..<length (mats h2)] \<and>
     map (nth (mats h2)) (mat_refs (objs h2 ! m1)) =
       map (\<lambda>r. (mats h ! r)\<lparr>transparent := tr1\<rparr>) (mat_refs t1) \<and>
     map (nth (mats h2)) (mat_refs (objs h2 ! m2)) =
       map (\<lambda>r. (mats h ! r)\<lparr>transparent := tr2\<rparr>) (mat_refs t2) \<and>
     take (length (mats h)) (mats h2) = mats h \<and>
     set (mat_refs (objs h2 ! m1)) \<inter> set (mat_refs (objs h2 ! m2)) = {} \<and>
     (\<forall>name tmpl. meshes am name = Some tmpl \<longrightarrow>
        set (mat_refs tmpl) \<inter>
          (set (mat_refs (objs h2 ! m1)) \<union> set (mat_refs (objs h2 ! m2))) = {}) \<and>
     (\<forall>r v. r \<in> set (mat_refs (objs h2 ! m1)) \<longrightarrow>
        map (nth ((mats h2)[r := v])) (mat_refs (objs h2 ! m2)) =
          map (nth (mats h2)) (mat_refs (objs h2 ! m2)) \<and>
        (\<forall>name tmpl. meshes am name = Some tmpl \<longrightarrow>
           map (nth ((mats h2)[r := v])) (mat_refs tmpl) = map (nth (mats h2)) (mat_refs tmpl))) \<and>
     (\<forall>r v. r \<in> set (mat_refs (objs h2 ! m2)) \<longrightarrow>
        map (nth ((mats h2)[r := v])) (mat_refs (objs h2 ! m1)) =
          map (nth (mats h2)) (mat_refs (objs h2 ! m1)) \<and>
        (\<forall>name tmpl. meshes am name = Some tmpl \<longrightarrow>
           map (nth ((mats h2)[r := v])) (mat_refs tmpl) = map (nth (mats h2)) (mat_refs tmpl)))"
proof -
  let ?f1 = "\<lambda>r. (mats h ! r)\<lparr>transparent := tr1\<rparr>"
  let ?f2 = "\<lambda>r. (mats h ! r)\<lparr>transparent := tr2\<rparr>"
  from cloneMesh_result[OF assms(1,3)] obtain t1 where
    t1: "meshes am n1 = Some t1" and m1: "m1 = length (objs h)"
    and o1: "take (length (objs h)) (objs h1) = objs h" "length (objs h1) = Suc (length (objs h))"
    and b1: "blank (objs h1 ! m1) = blank t1"
    and r1: "mat_refs (objs h1 ! m1) = [length (mats h)..<length (mats h1)]"
    and x1: "mats h1 = mats h @ map ?f1 (mat_refs t1)" by blast
  have wf: "\<forall>r \<in> set (mat_refs tmpl). r < length (mats h)" if "meshes am name = Some tmpl"
    for name tmpl using assms(3) that by (auto simp: templates_allocated_def)
  have ta1: "templates_allocated am h1"
    using assms(3) x1 by (auto simp: templates_allocated_def intro: trans_less_add1)
  from cloneMesh_result[OF assms(2) ta1] obtain t2 where
    t2: "meshes am n2 = Some t2" and m2: "m2 = length (objs h1)"
    and o2: "take (length (objs h1)) (objs h2) = objs h1"
    and b2: "blank (objs h2 ! m2) = blank t2"
    and r2: "mat_refs (objs h2 ! m2) = [length (mats h1)..<length (mats h2)]"
    and x2': "mats h2 = mats h1 @ map (\<lambda>r. (mats h1 ! r)\<lparr>transparent := tr2\<rparr>) (mat_refs t2)"
    by blast
  have "map (\<lambda>r. (mats h1 ! r)\<lparr>transparent := tr2\<rparr>) (mat_refs t2) = map ?f2 (mat_refs t2)"
    using wf[OF t2] x1 by (intro map_cong refl) (auto simp: nth_append)
  with x2' have x2: "mats h2 = mats h1 @ map ?f2 (mat_refs t2)" by simp
  from m1 m2 o1 have ne: "m1 \<noteq> m2" and lt: "m1 < length (objs h1)" by simp_all
  from o2 lt have same: "objs h2 ! m1 = objs h1 ! m1"
    by (metis nth_take)
  let ?R1 = "mat_refs (objs h2 ! m1)" and ?R2 = "mat_refs (objs h2 ! m2)"
  from same r1 have R1: "?R1 = [length (mats h)..<length (mats h1)]" by simp
  from x1 have l1: "length (mats h1) = length (mats h) + length (map ?f1 (mat_refs t1))"
    by simp
  from x2 have l2: "length (mats h2) = length (mats h1) + length (map ?f2 (mat_refs t2))"
    by simp
  have c1: "map (nth (mats h2)) ?R1 = map ?f1 (mat_refs t1)"
    unfolding R1 l1 using map_nth_append_upt2[of "mats h" "map ?f1 (mat_refs t1)"
        "map ?f2 (mat_refs t2)"] x1 x2 by simp
  have c2: "map (nth (mats h2)) ?R2 = map ?f2 (mat_refs t2)"
    unfolding r2 l2 using map_nth_append_upt[of "mats h1" "map ?f2 (mat_refs t2)"] x2 by simp
  from x1 x2 have tk: "take (length (mats h)) (mats h2) = mats h" by simp
  from R1 r2 have dj: "set ?R1 \<inter> set ?R2 = {}" by (simp add: upt_disjoint)
  have dt: "set (mat_refs tmpl) \<inter> (set ?R1 \<union> set ?R2) = {}"
    if "meshes am name = Some tmpl" for name tmpl
    using wf[OF that] R1 r2 l1 by auto
  have u1: "map (nth ((mats h2)[r := v])) ?R2 = map (nth (mats h2)) ?R2 \<and>
        (\<forall>name tmpl. meshes am name = Some tmpl \<longrightarrow>
           map (nth ((mats h2)[r := v])) (mat_refs tmpl) = map (nth (mats h2)) (mat_refs tmpl))"
    if "r \<in> set ?R1" for r v
  proof -
    from that dj have "r \<notin> set ?R2" by auto
    moreover have "r \<notin> set (mat_refs tmpl)" if "meshes am name = Some tmpl" for name tmpl
      using dt[OF that] \<open>r \<in> set ?R1\<close> by auto
    ultimately show ?thesis by (simp add: map_nth_update_other)
  qed
  have u2: "map (nth ((mats h2)[r := v])) ?R1 = map (nth (mats h2)) ?R1 \<and>
        (\<forall>name tmpl. meshes am name = Some tmpl \<longrightarrow>
           map (nth ((mats h2)[r := v])) (mat_refs tmpl) = map (nth (mats h2)) (mat_refs tmpl))"
    if "r \<in> set ?R2" for r v
  proof -
    from that dj have "r \<notin> set ?R1" by auto
    moreover have "r \<notin> set (mat_refs tmpl)" if "meshes am name = Some tmpl" for name tmpl
      using dt[OF that] \<open>r \<in> set ?R2\<close> by auto
    ultimately show ?thesis by (simp add: map_nth_update_other)
  qed
  from same b1 have b1': "blank (objs h2 ! m1) = blank t1" by simp
  from t1 t2 ne b1' b2 R1 r2 c1 c2 tk dj dt u1 u2 show ?thesis by blast
qed

text \<open>Two clones of the house template, which has a sub-part.\<close>

theorem C7_witness:
  "templates_allocated demo_assets demo_heap \<and>
   (\<exists>m1 h1 m2 h2.
      cloneMesh demo_assets ''residential-A1'' False demo_heap = Inr (m1, h1) \<and>
      cloneMesh demo_assets ''residential-A1'' True h1 = Inr (m2, h2) \<and>
      m1 \<noteq> m2 \<and>
      mat_refs (objs h2 ! m1) = [9, 10] \<and> mat_refs (objs h2 ! m2) = [11, 12] \<and>
      mat_refs demo_house = [2, 3] \<and>
      set (mat_refs (objs h2 ! m1)) \<inter> set (mat_refs (objs h2 ! m2)) = {})"
proof -
  have ta: "templates_allocated demo_assets demo_heap"
    by (auto simp: templates_allocated_def demo_defs mat_refs_def split: if_splits)
  obtain m1 h1 where c1: "cloneMesh demo_assets ''residential-A1'' False demo_heap = Inr (m1, h1)"
    by (simp add: cloneMesh_def demo_defs)
  have l1: "length (mats demo_heap) = 9" "length (mats h1) = 11"
    using c1 by (auto simp: cloneMesh_def demo_defs)
  obtain m2 h2 where c2: "cloneMesh demo_assets ''residential-A1'' True h1 = Inr (m2, h2)"
    by (cases "cloneMaterials True demo_house (mats h1)") (simp add: cloneMesh_def demo_defs)
  from C7_clones_share_no_material[OF c1 c2 ta] obtain t1 t2 where
    f: "m1 \<noteq> m2"
    "mat_refs (objs h2 ! m1) = [length (mats demo_heap)..<length (mats h1)]"
    "mat_refs (objs h2 ! m2) = [length (mats h1)..<length (mats h2)]"
    "map (nth (mats h2)) (mat_refs (objs h2 ! m2)) =
       map (\<lambda>r. (mats demo_heap ! r)\<lparr>transparent := True\<rparr>) (mat_refs t2)"
    "meshes demo_assets ''residential-A1'' = Some t2"
    "set (mat_refs (objs h2 ! m1)) \<inter> set (mat_refs (objs h2 ! m2)) = {}"
    by blast
  from f(5) have t2: "t2 = demo_house" by (simp add: demo_assets_def)
  have mr: "mat_refs demo_house = [2, 3]" by (simp add: mat_refs_def demo_defs)
  from f(4) have "length (mat_refs (objs h2 ! m2)) = length (mat_refs t2)"
    by (metis length_map)
  with f(3) t2 mr l1 have "length (mats h2) = 13" by simp
  with f l1 mr have "mat_refs (objs h2 ! m1) = [9, 10]" "mat_refs (objs h2 ! m2) = [11, 12]"
    by (simp_all add: upt_rec)
  with ta c1 c2 f(1,6) mr show ?thesis by blast
qed

section \<open>The tint of abandoned zones\<close>

text \<open>
  C8, as stated, on the abandoned zone of the example world, whose template has a
  sub-part: the material of the sub-part keeps its colour.
\<close>

theorem C8_subpart_not_tinted:
  "(case createZoneMesh demo_assets demo_tile11 demo_heap of
      Inl e \<Rightarrow> False
    | Inr (m, h') \<Rightarrow>
        abandoned demo_zone_b \<and> mat_refs (objs h' ! m) = [9, 10] \<and>
        color (mats h' ! 9) = 0x707070 \<and> color (mats h' ! 10) = 0xffffff)"
  by (simp add: createZoneMesh_def demo_tile11_def demo_defs zoneModelName_def
        cloneMesh_def Let_def update_props_def mat_refs_def
        nth_append)

text \<open>
  C8 (amended). For a tile holding an abandoned zone building, the mesh
  \<open>createZoneMesh\<close> returns has the tint \<open>0x707070\<close> as the colour of the material of
  its top-level object only. That material is the clone \<open>cloneMesh\<close> allocated for this
  mesh (the first new cell), not another material put in its place: its other channels
  are the template's. The materials of the sub-parts are plain clones of the
  template's, with the template's colours, and no material that existed before is
  written.
\<close>

theorem C8_abandoned_tints_root_material:
  assumes "createZoneMesh am ti h = Inr (m, h')" and "building ti = Some zone"
    and "abandoned zone" and "templates_allocated am h"
  shows "\<exists>tmpl rt. meshes am (zoneModelName zone) = Some tmpl \<and>
      material (props tmpl) = Some rt \<and>
      material (props (objs h' ! m)) = Some (length (mats h)) \<and>
      mat_refs (objs h' ! m) = [length (mats h)..<length (mats h')] \<and>
      length (mats h') = length (mats h) + length (mat_refs tmpl) \<and>
      mats h' ! length (mats h) = (mats h ! rt)\<lparr>transparent := False, color := 0x707070\<rparr> \<and>
      (\<forall>i. 0 < i \<and> i < length (mat_refs tmpl) \<longrightarrow>
         mats h' ! (length (mats h) + i) = (mats h ! (mat_refs tmpl ! i))\<lparr>transparent := False\<rparr>) \<and>
      take (length (mats h)) (mats h') = mats h"
proof -
  let ?f = "\<lambda>r. (mats h ! r)\<lparr>transparent := False\<rparr>"
  from createZoneMesh_Inr[OF assms(1)] obtain z tmpl ob ms1 where f:
    "building ti = Some z \<and> meshes am (zoneModelName z) = Some tmpl \<and>
     cloneMaterials False tmpl (mats h) = (ob, ms1) \<and> m = length (objs h) \<and>
     objs h' = objs h @ [Object3D ((props ob)\<lparr>userData := Some (tile_x ti, tile_y ti),
                            rotationY := rotation z,
                            position := (pos_x z, 0, pos_y z)\<rparr>) (children ob)] \<and>
     (abandoned z \<longrightarrow>
      (\<exists>r. material (props ob) = Some r \<and> mats h' = ms1[r := (ms1 ! r)\<lparr>color := 0x707070\<rparr>])) \<and>
     (\<not> abandoned z \<longrightarrow> mats h' = ms1)"
    by (elim exE) (rule that, assumption)
  with assms(2) have z: "z = zone" by simp
  from f z assms(3) obtain r where tmpl: "meshes am (zoneModelName zone) = Some tmpl"
    and cm: "cloneMaterials False tmpl (mats h) = (ob, ms1)" and m: "m = length (objs h)"
    and o: "objs h' = objs h @ [Object3D ((props ob)\<lparr>userData := Some (tile_x ti, tile_y ti),
                            rotationY := rotation zone,
                            position := (pos_x zone, 0, pos_y zone)\<rparr>) (children ob)]"
    and r: "material (props ob) = Some r"
    and mh: "mats h' = ms1[r := (ms1 ! r)\<lparr>color := 0x707070\<rparr>]"
    by auto
  from cloneMaterials_root[OF cm] r obtain rt where rt: "material (props tmpl) = Some rt"
    and r0: "r = length (mats h)" by (auto split: option.splits)
  from assms(4) tmpl have wf: "\<forall>r \<in> set (mat_refs tmpl). r < length (mats h)"
    by (simp add: templates_allocated_def)
  from cloneMaterials_ext(1)[OF cm wf] have ms1: "ms1 = mats h @ map ?f (mat_refs tmpl)" .
  from rt obtain rest where refs: "mat_refs tmpl = rt # rest"
    by (cases tmpl) (simp add: mat_refs_Object3D)
  from m o have obj: "objs h' ! m = Object3D ((props ob)\<lparr>userData := Some (tile_x ti, tile_y ti),
                            rotationY := rotation zone,
                            position := (pos_x zone, 0, pos_y zone)\<rparr>) (children ob)"
    by simp
  from obj r r0 have a: "material (props (objs h' ! m)) = Some (length (mats h))" by simp
  from mh have len: "length (mats h') = length ms1" by simp
  from obj cloneMaterials_fresh(1)[OF cm] len
  have b: "mat_refs (objs h' ! m) = [length (mats h)..<length (mats h')]"
    by (simp add: mat_refs_placed)
  from len ms1 have c: "length (mats h') = length (mats h) + length (mat_refs tmpl)" by simp
  from mh r0 ms1 refs
  have d: "mats h' ! length (mats h) = (mats h ! rt)\<lparr>transparent := False, color := 0x707070\<rparr>"
    by (simp add: nth_append)
  have e: "mats h' ! (length (mats h) + i) = (mats h ! (mat_refs tmpl ! i))\<lparr>transparent := False\<rparr>"
    if "0 < i" "i < length (mat_refs tmpl)" for i
    using that mh r0 ms1 by (simp add: nth_append)
  from mh r0 ms1 have g: "take (length (mats h)) (mats h') = mats h" by simp
  from tmpl rt a b c d e g show ?thesis by blast
qed

text \<open>The abandoned zone of the example world.\<close>

theorem C8_witness:
  "building demo_tile11 = Some demo_zone_b \<and> abandoned demo_zone_b \<and>
   templates_allocated demo_assets demo_heap \<and>
   (\<exists>m h'. createZoneMesh demo_assets demo_tile11 demo_heap = Inr (m, h') \<and>
      material (props (objs h' ! m)) = Some 9 \<and>
      mats h' ! 9 = newLambert\<lparr>transparent := False, color := 0x707070\<rparr> \<and>
      mats h' ! 10 = newLambert\<lparr>transparent := False\<rparr>)"
proof -
  have ta: "templates_allocated demo_assets demo_heap"
    by (auto simp: templates_allocated_def demo_defs mat_refs_def split: if_splits)
  have b: "building demo_tile11 = Some demo_zone_b" "abandoned demo_zone_b"
    by (simp_all add: demo_tile11_def demo_zone_b_def)
  obtain m h' where z: "createZoneMesh demo_assets demo_tile11 demo_heap = Inr (m, h')"
    by (simp add: createZoneMesh_def demo_tile11_def demo_defs zoneModelName_def
          cloneMesh_def Let_def update_props_def)
  have n: "zoneModelName demo_zone_b = ''residential-A1''"
    by (simp add: zoneModelName_def demo_zone_b_def)
  have d: "meshes demo_assets ''residential-A1'' = Some demo_house"
    "mat_refs demo_house = [2, 3]" "material (props demo_house) = Some 2"
    "length (mats demo_heap) = 9" "mats demo_heap ! 2 = newLambert"
    "mats demo_heap ! 3 = newLambert"
    by (simp_all add: mat_refs_def demo_assets_def demo_house_def demo_heap_def demo_props_def
          numeral_eq_Suc)
  from C8_abandoned_tints_root_material[OF z b ta] n d
  have "material (props (objs h' ! m)) = Some 9 \<and>
      mats h' ! 9 = newLambert\<lparr>transparent := False, color := 0x707070\<rparr> \<and>
      mats h' ! (9 + 1) = newLambert\<lparr>transparent := False\<rparr>"
    by auto
  with b ta z show ?thesis by auto
qed

section \<open>Hover and active highlight\<close>

text \<open>
  C1, evaluated: mesh 4 of the example scene is made the active object and has the
  active colour \<open>0xaaaa55\<close>; \<open>setHighlightedMesh\<close> with the same mesh returns and
  leaves it with the hover colour \<open>0x555555\<close>.
\<close>

theorem C1_hover_overrides_active_highlight:
  "activeObject (fst (snd (setActiveObject (Some 4) (demo_scene, demo_heap)))) = Some 4 \<and>
   emission_of (snd (snd (setActiveObject (Some 4) (demo_scene, demo_heap)))) 4 = Some 0xaaaa55 \<and>
   fst (setHighlightedMesh (Some 4) (snd (setActiveObject (Some 4) (demo_scene, demo_heap)))) = None \<and>
   emission_of (snd (snd (setHighlightedMesh (Some 4)
       (snd (setActiveObject (Some 4) (demo_scene, demo_heap)))))) 4 = Some 0x555555"
  by (simp add: setActiveObject_def setHighlightedMesh_def setMeshEmission_def emission_of_def
        demo_defs Let_def)

end
